theory Spec2Isabelle
  imports
    Complex_Main
    "HOL-Library.Sublist"
    "HOL-Library.Char_ord"
    "HOL-Library.List_Lexorder"
    "HOL-Library.Product_Lexorder"
begin

section \<open>Values of the data model\<close>

text \<open>
  A field value is a string, an array of strings, or absent (\<open>undefined\<close>). A
  \<open>string\<close> is the sequence of the JavaScript string's code units; the model covers
  the code units below 256 (ASCII and the Latin-1 supplement), which is where every
  character class of the source's regular expressions has its members. A reference
  (a record of the library) maps field names to field values.
\<close>

datatype fieldval = Absent | Str string | Arr "string list"

type_synonym reference = "string \<Rightarrow> fieldval"

datatype js_error = TypeError | Error string

text \<open>What a comparison handler or a score computation yields: a number, a boolean or
  \<open>NaN\<close>. Numbers are rationals: the rounding of IEEE doubles is not modelled.\<close>

datatype jsval = Num rat | Boolean bool | NaN

text \<open>\<open>!v\<close> of the source: the empty string and \<open>undefined\<close> are falsy, every array
  (the empty one too) is truthy.\<close>

definition falsy :: "fieldval \<Rightarrow> bool" where
  "falsy v = (case v of Absent \<Rightarrow> True | Str s \<Rightarrow> s = [] | Arr xs \<Rightarrow> False)"

text \<open>\<open>Array.prototype.join\<close> and the conversion of a value to a string.\<close>

fun join :: "string \<Rightarrow> string list \<Rightarrow> string" where
  "join sep [] = []"
| "join sep [x] = x"
| "join sep (x # y # ys) = x @ sep @ join sep (y # ys)"

fun toString :: "fieldval \<Rightarrow> string" where
  "toString Absent = ''undefined''"
| "toString (Str s) = s"
| "toString (Arr xs) = join '','' xs"

text \<open>Conversion to a number as \<open><\<close>, \<open>>\<close>, \<open>+\<close> and \<open>/\<close> do it; \<open>None\<close> is
  \<open>NaN\<close>.\<close>

fun toNumber :: "jsval \<Rightarrow> rat option" where
  "toNumber (Num x) = Some x"
| "toNumber (Boolean b) = Some (if b then 1 else 0)"
| "toNumber NaN = None"

definition js_lt :: "jsval \<Rightarrow> jsval \<Rightarrow> bool" where
  "js_lt a b = (case toNumber a of None \<Rightarrow> False
     | Some x \<Rightarrow> (case toNumber b of None \<Rightarrow> False | Some y \<Rightarrow> x < y))"

definition js_gt :: "jsval \<Rightarrow> jsval \<Rightarrow> bool" where
  "js_gt a b = js_lt b a"

definition js_ge :: "jsval \<Rightarrow> jsval \<Rightarrow> bool" where
  "js_ge a b = (case toNumber a of None \<Rightarrow> False
     | Some x \<Rightarrow> (case toNumber b of None \<Rightarrow> False | Some y \<Rightarrow> y \<le> x))"

definition js_plus :: "jsval \<Rightarrow> jsval \<Rightarrow> jsval" where
  "js_plus a b = (case toNumber a of None \<Rightarrow> NaN
     | Some x \<Rightarrow> (case toNumber b of None \<Rightarrow> NaN | Some y \<Rightarrow> Num (x + y)))"

text \<open>Division by a length. The only division by zero the source can reach is
  \<open>0 / 0\<close> (the reduce of an empty field list), which is \<open>NaN\<close>.\<close>

definition js_div :: "jsval \<Rightarrow> nat \<Rightarrow> jsval" where
  "js_div a n = (case toNumber a of None \<Rightarrow> NaN
     | Some x \<Rightarrow> if n = 0 then NaN else Num (x / of_nat n))"

section \<open>Character classes and regular-expression helpers\<close>

definition is_digit :: "char \<Rightarrow> bool" where
  "is_digit c = (c \<in> set ''0123456789'')"

definition is_alpha :: "char \<Rightarrow> bool" where
  "is_alpha c = (c \<in> set ''ABCDEFGHIJKLMNOPQRSTUVWXYZabcdefghijklmnopqrstuvwxyz'')"

text \<open>\<open>\s\<close>: tab, line feed, vertical tab, form feed, carriage return, space and the
  no-break space.\<close>

definition is_space :: "char \<Rightarrow> bool" where
  "is_space c = (c \<in> set [CHR 0x09, CHR 0x0A, CHR 0x0B, CHR 0x0C, CHR 0x0D, CHR 0x20, CHR 0xA0])"

text \<open>\<open>\p{Pd}\<close>: the only dash punctuation below 256 is the hyphen-minus.\<close>

definition is_dash :: "char \<Rightarrow> bool" where
  "is_dash c = (c = CHR ''-'')"

text \<open>\<open>v.replace(/[class]+/g, r)\<close>: every maximal run of characters of the class is
  replaced by \<open>r\<close>.\<close>

function replace_runs :: "(char \<Rightarrow> bool) \<Rightarrow> string \<Rightarrow> string \<Rightarrow> string" where
  "replace_runs P r [] = []"
| "replace_runs P r (c # cs) =
     (if P c then r @ replace_runs P r (dropWhile P cs) else c # replace_runs P r cs)"
  by pat_completeness auto
termination
  by (relation "measure (\<lambda>(P, r, s). length s)")
     (auto simp: le_imp_less_Suc length_dropWhile_le)

definition starts_with :: "string \<Rightarrow> string \<Rightarrow> bool" where
  "starts_with p s = (take (length p) s = p)"

section \<open>Mutators\<close>

text \<open>
  A mutator handler is called as \<open>handler(value, original)\<close>. A method call on a value
  that has no such method (\<open>v.replace\<close> on an array or on \<open>undefined\<close>) raises a
  \<open>TypeError\<close>.
\<close>

type_synonym mutator = "fieldval \<Rightarrow> reference \<Rightarrow> js_error + fieldval"

definition alphaNumericOnly :: mutator where
  "alphaNumericOnly v ref = (case v of
     Str s \<Rightarrow> Inr (Str (replace_runs (\<lambda>c. \<not> (is_digit c \<or> is_alpha c \<or> is_space c)) '' '' s))
   | _ \<Rightarrow> Inl TypeError)"

definition noSpace :: mutator where
  "noSpace v ref = (case v of
     Str s \<Rightarrow> Inr (Str (replace_runs is_space [] s))
   | _ \<Rightarrow> Inl TypeError)"

definition numericOnly :: mutator where
  "numericOnly v ref = (case v of
     Str s \<Rightarrow> Inr (Str (replace_runs (\<lambda>c. \<not> is_digit c) [] s))
   | _ \<Rightarrow> Inl TypeError)"

text \<open>
  \<open>_.deburr\<close> is lodash's: it converts its argument to a string (\<open>undefined\<close> to the
  empty string), replaces each letter of the Latin-1 supplement (\<open>\xc0-\xd6\<close>,
  \<open>\xd8-\xf6\<close>, \<open>\xf8-\xff\<close>) by its basic Latin letters after the table below, and
  removes combining marks (all of them above 255).
\<close>

definition deburredLetters :: "(char \<times> string) list" where
  "deburredLetters =
    [(CHR 0xC0, ''A''), (CHR 0xC1, ''A''), (CHR 0xC2, ''A''), (CHR 0xC3, ''A''),
     (CHR 0xC4, ''A''), (CHR 0xC5, ''A''),
     (CHR 0xE0, ''a''), (CHR 0xE1, ''a''), (CHR 0xE2, ''a''), (CHR 0xE3, ''a''),
     (CHR 0xE4, ''a''), (CHR 0xE5, ''a''),
     (CHR 0xC7, ''C''), (CHR 0xE7, ''c''),
     (CHR 0xD0, ''D''), (CHR 0xF0, ''d''),
     (CHR 0xC8, ''E''), (CHR 0xC9, ''E''), (CHR 0xCA, ''E''), (CHR 0xCB, ''E''),
     (CHR 0xE8, ''e''), (CHR 0xE9, ''e''), (CHR 0xEA, ''e''), (CHR 0xEB, ''e''),
     (CHR 0xCC, ''I''), (CHR 0xCD, ''I''), (CHR 0xCE, ''I''), (CHR 0xCF, ''I''),
     (CHR 0xEC, ''i''), (CHR 0xED, ''i''), (CHR 0xEE, ''i''), (CHR 0xEF, ''i''),
     (CHR 0xD1, ''N''), (CHR 0xF1, ''n''),
     (CHR 0xD2, ''O''), (CHR 0xD3, ''O''), (CHR 0xD4, ''O''), (CHR 0xD5, ''O''),
     (CHR 0xD6, ''O''), (CHR 0xD8, ''O''),
     (CHR 0xF2, ''o''), (CHR 0xF3, ''o''), (CHR 0xF4, ''o''), (CHR 0xF5, ''o''),
     (CHR 0xF6, ''o''), (CHR 0xF8, ''o''),
     (CHR 0xD9, ''U''), (CHR 0xDA, ''U''), (CHR 0xDB, ''U''), (CHR 0xDC, ''U''),
     (CHR 0xF9, ''u''), (CHR 0xFA, ''u''), (CHR 0xFB, ''u''), (CHR 0xFC, ''u''),
     (CHR 0xDD, ''Y''), (CHR 0xFD, ''y''), (CHR 0xFF, ''y''),
     (CHR 0xC6, ''Ae''), (CHR 0xE6, ''ae''),
     (CHR 0xDE, ''Th''), (CHR 0xFE, ''th''),
     (CHR 0xDF, ''ss'')]"

definition deburrLetter :: "char \<Rightarrow> string" where
  "deburrLetter c = (case map_of deburredLetters c of Some s \<Rightarrow> s | None \<Rightarrow> [c])"

definition deburr :: mutator where
  "deburr v ref =
     Inr (Str (concat (map deburrLetter (case v of Absent \<Rightarrow> [] | _ \<Rightarrow> toString v))))"

text \<open>\<open>/^https?:\/\/doi.org\//\<close>: the dot is unescaped and matches any character but
  a line terminator.\<close>

definition is_doi_url :: "string \<Rightarrow> bool" where
  "is_doi_url u =
     (let r = (if starts_with ''https'' u then drop 5 u else drop 4 u) in
      starts_with ''http'' u \<and> starts_with ''://doi'' r \<and>
      (case drop 6 r of [] \<Rightarrow> False
       | c # t \<Rightarrow> c \<noteq> CHR 0x0A \<and> c \<noteq> CHR 0x0D \<and> starts_with ''org/'' t))"

text \<open>\<open>s.replace(/^http:/, 'https:')\<close>\<close>

definition http_to_https :: "string \<Rightarrow> string" where
  "http_to_https s = (if starts_with ''http:'' s then ''https:'' @ drop 5 s else s)"

definition doiRewrite :: mutator where
  "doiRewrite v ref =
     (if \<not> falsy v then
        (if starts_with ''https://'' (toString v) then Inr v
         else if starts_with ''http://'' (toString v) then
           (case v of Str s \<Rightarrow> Inr (Str (http_to_https s)) | _ \<Rightarrow> Inl TypeError)
         else Inr (Str (''https://doi.org/'' @ toString v)))
      else
        (case ref ''urls'' of
           Str s \<Rightarrow> Inl TypeError
         | Absent \<Rightarrow> Inr (Str [])
         | Arr urls \<Rightarrow>
             (case find is_doi_url urls of
                Some foundDoi \<Rightarrow> Inr (Str (http_to_https foundDoi))
              | None \<Rightarrow> Inr (Str []))))"

text \<open>
  \<open>/^(?<from>\d+)\s*(\p{Pd}+(?<to>\d+)\s*)?$/u\<close>. Digits, white space and dashes are
  disjoint classes, so the greedy reading of the string is the only one. The result is
  the \<open>from\<close> group and, when the optional part took part in the match, the \<open>to\<close>
  group.
\<close>

definition pages_groups :: "string \<Rightarrow> (string \<times> string option) option" where
  "pages_groups s =
     (let from = takeWhile is_digit s;
          r1 = dropWhile is_space (dropWhile is_digit s);
          r2 = dropWhile is_dash r1;
          to = takeWhile is_digit r2;
          r3 = dropWhile is_space (dropWhile is_digit r2)
      in if from = [] then None
         else if r1 = [] then Some (from, None)
         else if r2 = r1 then None
         else if to = [] then None
         else if r3 = [] then Some (from, Some to)
         else None)"

definition consistentPageNumbering :: mutator where
  "consistentPageNumbering v ref =
     (case pages_groups (toString v) of
        Some (from, Some to) \<Rightarrow>
          Inr (Str (from @ ''-'' @ take (length from - length to) from @ to))
      | Some (from, None) \<Rightarrow> Inr (Str from)
      | None \<Rightarrow> Inr (Str []))"

section \<open>Comparisons\<close>

text \<open>
  A comparison handler is called as \<open>handler(a, b)\<close> on two field values and is
  documented to return a floating value. \<open>JSON.stringify\<close> of an array of strings
  quotes and escapes each element.
\<close>

type_synonym comparison_handler = "fieldval \<Rightarrow> fieldval \<Rightarrow> js_error + jsval"

definition hex_digit :: "nat \<Rightarrow> char" where
  "hex_digit n = ''0123456789abcdef'' ! (n mod 16)"

definition json_escape :: "char \<Rightarrow> string" where
  "json_escape c =
     (if c = CHR 0x22 then [CHR 0x5C, CHR 0x22]
      else if c = CHR 0x5C then [CHR 0x5C, CHR 0x5C]
      else if c = CHR 0x08 then [CHR 0x5C, CHR ''b'']
      else if c = CHR 0x09 then [CHR 0x5C, CHR ''t'']
      else if c = CHR 0x0A then [CHR 0x5C, CHR ''n'']
      else if c = CHR 0x0C then [CHR 0x5C, CHR ''f'']
      else if c = CHR 0x0D then [CHR 0x5C, CHR ''r'']
      else if (of_char c :: nat) < 32 then
        [CHR 0x5C] @ ''u00'' @ [hex_digit (of_char c div 16), hex_digit (of_char c)]
      else [c])"

definition JSON_stringify :: "string list \<Rightarrow> string" where
  "JSON_stringify xs =
     ''['' @ join '','' (map (\<lambda>s. [CHR 0x22] @ concat (map json_escape s) @ [CHR 0x22]) xs) @ '']''"

text \<open>
  \<open>a == b\<close> on field values: \<open>undefined\<close> equals only itself, strings are equal by
  content, an array meets a string as its comma-joined elements, and two arrays are
  equal only as the same object (the values of two different records are not).
\<close>

fun loose_eq :: "fieldval \<Rightarrow> fieldval \<Rightarrow> bool" where
  "loose_eq Absent Absent = True"
| "loose_eq (Str a) (Str b) = (a = b)"
| "loose_eq (Str a) (Arr b) = (a = join '','' b)"
| "loose_eq (Arr a) (Str b) = (join '','' a = b)"
| "loose_eq _ _ = False"

fun exact :: comparison_handler where
  "exact (Arr a) (Arr b) = Inr (Boolean (JSON_stringify a = JSON_stringify b))"
| "exact a b = Inr (if loose_eq a b then Num 1 else Num 0)"

text \<open>\<open>a.substr(0, Math.min(a.length, b.length)) == b.substr(...)\<close>: only strings have
  \<open>substr\<close>.\<close>

fun exactTruncate :: comparison_handler where
  "exactTruncate (Str a) (Str b) =
     Inr (if take (min (length a) (length b)) a = take (min (length a) (length b)) b
          then Num 1 else Num 0)"
| "exactTruncate a b = Inl TypeError"

text \<open>
  The registry of an instance. The Jaro-Winkler distance is a library's and enters as
  a parameter; the \<open>random\<close> comparison is not a function of its arguments and has no
  entry in the model.
\<close>

definition comparisons :: "comparison_handler \<Rightarrow> string \<Rightarrow> comparison_handler option" where
  "comparisons jaroWinklerDistance =
     [''exact'' \<mapsto> exact, ''exactTruncate'' \<mapsto> exactTruncate,
      ''jaroWinkler'' \<mapsto> jaroWinklerDistance]"

section \<open>Strategies and their validation\<close>

text \<open>
  A strategy object and its steps. A field of the object that is missing is \<open>None\<close>.
  The \<open>mutators\<close> object is the list of its entries, each mutator list as
  \<open>_.castArray\<close> leaves it; \<open>sort\<close> is a field name or a list of field names.
\<close>

datatype sortkey = SortField string | SortList "string list"

record step =
  fields' :: "string list option"
  sort' :: "sortkey option"
  comparison :: "string option"
  skipOmitted :: "bool option"

record strategy =
  title :: "string option"
  description :: "string option"
  mutators :: "(string \<times> string list) list option"
  steps :: "step list option"

datatype validation = Valid | Errors "string list"

fun show_nat :: "nat \<Rightarrow> string" where
  "show_nat n =
     (if n < 10 then [''0123456789'' ! n]
      else show_nat (n div 10) @ [''0123456789'' ! (n mod 10)])"

declare show_nat.simps [simp del]

text \<open>\<open>!s\<close> for an optional string: missing or empty.\<close>

definition missing :: "string option \<Rightarrow> bool" where
  "missing v = (case v of None \<Rightarrow> True | Some s \<Rightarrow> s = [])"

definition step_errors :: "step \<Rightarrow> nat \<Rightarrow> string list" where
  "step_errors step stepIndex =
     (if (case fields' step of None \<Rightarrow> True | Some fs \<Rightarrow> fs = [])
      then [''Step #'' @ show_nat (stepIndex + 1) @ '' contains no fields''] else [])
     @ (if (case sort' step of None \<Rightarrow> True | Some (SortField s) \<Rightarrow> s = []
            | Some (SortList l) \<Rightarrow> False)
        then [''Step #'' @ show_nat (stepIndex + 1) @ '' contains no sort field(s)''] else [])
     @ (if (case sort' step of Some (SortList l) \<Rightarrow> l = [] | _ \<Rightarrow> False)
        then [''Step #'' @ show_nat (stepIndex + 1) @ '' contains a blank sort field list'']
        else [])
     @ (if missing (comparison step)
        then [''Step #'' @ show_nat (stepIndex + 1) @ '' contains no comparison''] else [])"

text \<open>
  \<open>validateStrategy\<close>. The first loop pushes one message per missing field. Then
  \<open>strategy.steps.length\<close> is read with no guard: on a strategy without \<open>steps\<close> this
  is a property read on \<open>undefined\<close>, a \<open>TypeError\<close>. The loop over the steps that
  follows is guarded by \<open>if (strategy.steps)\<close>.
\<close>

definition validateStrategy :: "strategy \<Rightarrow> js_error + validation" where
  "validateStrategy strategy =
     (let errs =
            (if missing (title strategy) then [''Field title is missing''] else [])
          @ (if missing (description strategy) then [''Field description is missing''] else [])
          @ (if mutators strategy = None then [''Field mutators is missing''] else [])
          @ (if steps strategy = None then [''Field steps is missing''] else [])
      in case steps strategy of
           None \<Rightarrow> Inl TypeError
         | Some sts \<Rightarrow>
             (let errs2 = errs
                    @ (if sts = [] then [''Should contain at least one step''] else [])
                    @ concat (map (\<lambda>(step, stepIndex). step_errors step stepIndex)
                                  (zip sts [0..<length sts]))
              in Inr (if errs2 = [] then Valid else Errors errs2)))"

section \<open>Working records and the score of a step\<close>

text \<open>
  The working record of a reference. The object literal sets \<open>original\<close>, \<open>index\<close>,
  \<open>recNumber\<close> and \<open>dedupe\<close> and then spreads the original and the mutated values over
  them, so a field of one of these names replaces the bookkeeping value:
  \<^item> \<open>index\<close> is the position in the input, or the field of that name;
  \<^item> \<open>recNumber\<close> is the record number, or the field of that name;
  \<^item> \<open>dedupe_steps\<close> is the sparse array \<open>dedupe.steps\<close> (a hole is \<open>None\<close>; the length
    of the list is the array's \<open>length\<close>), and is \<open>None\<close> when \<open>dedupe\<close> is a field
    value, which has no \<open>steps\<close>: every read of \<open>dedupe.steps[...]\<close> or
    \<open>dedupe.steps.length\<close> is then a \<open>TypeError\<close>;
  \<^item> \<open>dedupe_score\<close> is \<open>dedupe.score\<close> once the aggregator has set it;
  \<^item> \<open>flds\<close> are the fields, the original's overridden by the mutated ones.
  The property \<open>original\<close> is read by no later stage and has no counterpart here. A
  step is taken to name none of \<open>original\<close>, \<open>index\<close>, \<open>recNumber\<close> and \<open>dedupe\<close> among
  its fields or as its sort key.
\<close>

datatype refid = RefNum nat | RefVal fieldval

record step_result =
  score :: jsval
  dupeOf :: "refid option"

record wref =
  index :: refid
  recNumber :: refid
  dedupe_steps :: "step_result option list option"
  dedupe_score :: "jsval option"
  flds :: reference

text \<open>The score of one field: 0 when \<open>skipOmitted\<close> (true unless set) and one of the two
  values is falsy, the handler's result otherwise. A comparison name with no entry in
  the registry has no \<open>handler\<close>: a \<open>TypeError\<close>.\<close>

definition field_score ::
  "(string \<Rightarrow> comparison_handler option) \<Rightarrow> step \<Rightarrow> wref \<Rightarrow> wref \<Rightarrow> string \<Rightarrow> js_error + jsval" where
  "field_score cmps step a b field =
     (if (case skipOmitted step of None \<Rightarrow> True | Some s \<Rightarrow> s)
         \<and> (falsy (flds a field) \<or> falsy (flds b field))
      then Inr (Num 0)
      else (case comparison step of
              None \<Rightarrow> Inl TypeError
            | Some c \<Rightarrow> (case cmps c of
                          None \<Rightarrow> Inl TypeError
                        | Some handler \<Rightarrow> handler (flds a field) (flds b field))))"

text \<open>\<open>compareViaStepAvg\<close>: the callback of \<open>reduce\<close> returns the score of its field and
  does not use the accumulated \<open>result\<close>; the result of the reduce is divided by the
  number of fields.\<close>

fun avg_reduce :: "(string \<Rightarrow> js_error + jsval) \<Rightarrow> jsval \<Rightarrow> string list \<Rightarrow> js_error + jsval" where
  "avg_reduce f result [] = Inr result"
| "avg_reduce f result (field # rest) =
     (case f field of Inl e \<Rightarrow> Inl e | Inr s \<Rightarrow> avg_reduce f s rest)"

definition compareViaStepAvg ::
  "(string \<Rightarrow> comparison_handler option) \<Rightarrow> wref \<Rightarrow> wref \<Rightarrow> step \<Rightarrow> js_error + jsval" where
  "compareViaStepAvg cmps a b step =
     (case fields' step of
        None \<Rightarrow> Inl TypeError
      | Some fs \<Rightarrow>
          (case avg_reduce (field_score cmps step a b) (Num 0) fs of
             Inl e \<Rightarrow> Inl e
           | Inr r \<Rightarrow> Inr (js_div r (length fs))))"

text \<open>\<open>compareViaStepMin\<close>: \<open>minimum\<close> starts at 1 and takes every score below it.\<close>

fun min_loop :: "(string \<Rightarrow> js_error + jsval) \<Rightarrow> jsval \<Rightarrow> string list \<Rightarrow> js_error + jsval" where
  "min_loop f minimum [] = Inr minimum"
| "min_loop f minimum (field # rest) =
     (case f field of
        Inl e \<Rightarrow> Inl e
      | Inr s \<Rightarrow> min_loop f (if js_lt s minimum then s else minimum) rest)"

definition compareViaStepMin ::
  "(string \<Rightarrow> comparison_handler option) \<Rightarrow> wref \<Rightarrow> wref \<Rightarrow> step \<Rightarrow> js_error + jsval" where
  "compareViaStepMin cmps a b step =
     (case fields' step of
        None \<Rightarrow> Inl TypeError
      | Some fs \<Rightarrow> min_loop (field_score cmps step a b) (Num 1) fs)"

section \<open>Settings\<close>

datatype mark = MarkValue fieldval | MarkFunction "reference \<Rightarrow> fieldval"

record settings =
  strategy :: string
  validateStrategy' :: bool
  action :: nat
  actionField :: string
  threshold :: rat
  markOk :: mark
  markDupe :: mark
  dupeRef :: nat
  fieldWeight :: nat
  markOriginal :: bool

datatype action_kind = STATS | MARK | DELETE

text \<open>\<open>Dedupe.ACTIONS\<close>, \<open>Dedupe.DUPEREF\<close> and \<open>Dedupe.FIELDWEIGHT\<close>.\<close>

definition ACTIONS :: "nat \<Rightarrow> action_kind option" where
  "ACTIONS a =
     (if a = 0 then Some STATS else if a = 1 then Some MARK
      else if a = 2 then Some DELETE else None)"

definition INDEX :: nat where "INDEX = 0"
definition RECNUMBER :: nat where "RECNUMBER = 1"
definition MINIMUM :: nat where "MINIMUM = 0"
definition AVERAGE :: nat where "AVERAGE = 1"

section \<open>The normalization pass\<close>

text \<open>The chain of a field: each mutator gets the result of the one before; a name
  with no entry in the registry has no \<open>handler\<close>.\<close>

fun apply_mutators ::
  "(string \<Rightarrow> mutator option) \<Rightarrow> reference \<Rightarrow> string list \<Rightarrow> fieldval \<Rightarrow> js_error + fieldval" where
  "apply_mutators muts orig [] v = Inr v"
| "apply_mutators muts orig (m # ms) v =
     (case muts m of
        None \<Rightarrow> Inl TypeError
      | Some handler \<Rightarrow>
          (case handler v orig of
             Inl e \<Rightarrow> Inl e
           | Inr v2 \<Rightarrow> apply_mutators muts orig ms v2))"

text \<open>\<open>_.mapValues(strategy.mutators, ...)\<close>, starting each chain at
  \<open>original[field] || ''\<close>.\<close>

fun mapValues ::
  "(string \<Rightarrow> mutator option) \<Rightarrow> reference \<Rightarrow> (string \<times> string list) list
     \<Rightarrow> js_error + (string \<times> fieldval) list" where
  "mapValues muts orig [] = Inr []"
| "mapValues muts orig ((field, ms) # rest) =
     (case apply_mutators muts orig ms (if falsy (orig field) then Str [] else orig field) of
        Inl e \<Rightarrow> Inl e
      | Inr v \<Rightarrow>
          (case mapValues muts orig rest of
             Inl e \<Rightarrow> Inl e
           | Inr vs \<Rightarrow> Inr ((field, v) # vs)))"

text \<open>Whether the spread sets a property: the original has the field, or the mutated
  values have it (one for every entry of \<open>strategy.mutators\<close>).\<close>

definition spread_sets :: "reference \<Rightarrow> (string \<times> fieldval) list \<Rightarrow> string \<Rightarrow> bool" where
  "spread_sets orig vs f = (if orig f = Absent then f \<in> set (map fst vs) else True)"

text \<open>The object literal of the working record: \<open>index\<close>, \<open>recNumber\<close> (which is
  \<open>original.refNumber || index + 1\<close>) and \<open>dedupe: {steps: []}\<close>, each replaced by the
  field of its name where the spread of the original and of the mutated values sets
  one.\<close>

definition working_record ::
  "(string \<Rightarrow> mutator option) \<Rightarrow> strategy \<Rightarrow> reference \<Rightarrow> nat \<Rightarrow> js_error + wref" where
  "working_record muts strat orig idx =
     (case mapValues muts orig (case mutators strat of None \<Rightarrow> [] | Some ms \<Rightarrow> ms) of
        Inl e \<Rightarrow> Inl e
      | Inr vs \<Rightarrow>
          (let fs = foldl (\<lambda>r (k, v). r(k := v)) orig vs in
           Inr \<lparr>index =
                  (if spread_sets orig vs ''index'' then RefVal (fs ''index'') else RefNum idx),
                recNumber =
                  (if spread_sets orig vs ''recNumber'' then RefVal (fs ''recNumber'')
                   else if falsy (orig ''refNumber'') then RefNum (idx + 1)
                   else RefVal (orig ''refNumber'')),
                dedupe_steps = (if spread_sets orig vs ''dedupe'' then None else Some []),
                dedupe_score = None, flds = fs\<rparr>))"

fun run_mutators ::
  "(string \<Rightarrow> mutator option) \<Rightarrow> strategy \<Rightarrow> reference list \<Rightarrow> nat \<Rightarrow> js_error + wref list" where
  "run_mutators muts strat [] idx = Inr []"
| "run_mutators muts strat (orig # rest) idx =
     (case working_record muts strat orig idx of
        Inl e \<Rightarrow> Inl e
      | Inr w \<Rightarrow>
          (case run_mutators muts strat rest (Suc idx) of
             Inl e \<Rightarrow> Inl e
           | Inr ws \<Rightarrow> Inr (w # ws)))"

section \<open>Sorting\<close>

text \<open>
  \<open>_.sortBy(refs, step.sort)\<close> is a stable ascending sort on the values of the sort
  field, or on the tuple of the values of a list of sort fields. lodash orders
  \<open>undefined\<close> after every other value and compares the rest with \<open><\<close> and \<open>>\<close>,
  which read an array as its comma-joined elements. A missing sort key or an empty
  list of fields leaves the order as it is. A sort key is taken to be a plain field
  name: lodash reads a key with a dot or a bracket, where the record has no field of
  that very name, as a path into the value. The sorted array holds the same objects
  as \<open>refs\<close>: here it is the list of their positions in \<open>refs\<close>.
\<close>

definition sort_value :: "fieldval \<Rightarrow> bool \<times> string" where
  "sort_value v = (case v of Absent \<Rightarrow> (True, []) | _ \<Rightarrow> (False, toString v))"

definition sort_criteria :: "sortkey option \<Rightarrow> wref \<Rightarrow> (bool \<times> string) list" where
  "sort_criteria key w =
     (case key of
        None \<Rightarrow> []
      | Some (SortField f) \<Rightarrow> [sort_value (flds w f)]
      | Some (SortList fs) \<Rightarrow> map (\<lambda>f. sort_value (flds w f)) fs)"

definition sortBy :: "wref list \<Rightarrow> sortkey option \<Rightarrow> nat list" where
  "sortBy refs key = sort_key (\<lambda>k. sort_criteria key (refs ! k)) [0..<length refs]"

section \<open>The sweep\<close>

text \<open>Reading and writing \<open>dedupe.steps[stepIndex]\<close>: a write past the end extends the
  array with holes.\<close>

definition get_step :: "step_result option list \<Rightarrow> nat \<Rightarrow> step_result option" where
  "get_step ss k = (if k < length ss then ss ! k else None)"

definition set_step :: "step_result option list \<Rightarrow> nat \<Rightarrow> step_result \<Rightarrow> step_result option list" where
  "set_step ss k v =
     (if k < length ss then ss[k := Some v]
      else ss @ replicate (k - length ss) None @ [Some v])"

definition compareViaStep ::
  "settings \<Rightarrow> (string \<Rightarrow> comparison_handler option) \<Rightarrow> wref \<Rightarrow> wref \<Rightarrow> step \<Rightarrow> js_error + jsval" where
  "compareViaStep S cmps a b step =
     (if fieldWeight S = MINIMUM then compareViaStepMin cmps a b step
      else compareViaStepAvg cmps a b step)"

definition backref :: "settings \<Rightarrow> wref \<Rightarrow> refid" where
  "backref S a = (if dupeRef S = RECNUMBER then recNumber a else index a)"

text \<open>The writes of the branch \<open>dupeScore > 0\<close>, on the records at the positions \<open>ai\<close>
  and \<open>ni\<close> of \<open>refs\<close>: first the read and the write for the anchor, then those for
  the candidate.\<close>

definition record_dupe ::
  "settings \<Rightarrow> nat \<Rightarrow> jsval \<Rightarrow> nat \<Rightarrow> nat \<Rightarrow> wref list \<Rightarrow> js_error + wref list" where
  "record_dupe S stepIndex dupeScore ai ni refs =
     (let a = refs ! ai in
      case dedupe_steps a of
        None \<Rightarrow> Inl TypeError
      | Some sa \<Rightarrow>
          (let refs1 =
                 (if get_step sa stepIndex = None then
                    refs[ai := a\<lparr>dedupe_steps := Some
                      (set_step sa stepIndex
                         \<lparr>score = (if markOriginal S then dupeScore else Num 0),
                          dupeOf = None\<rparr>)\<rparr>]
                  else refs);
               b = refs1 ! ni
           in case dedupe_steps b of
                None \<Rightarrow> Inl TypeError
              | Some sb \<Rightarrow>
                  (let linked = b\<lparr>dedupe_steps := Some
                         (set_step sb stepIndex
                            \<lparr>score = dupeScore, dupeOf = Some (backref S (refs1 ! ai))\<rparr>)\<rparr>
                   in case get_step sb stepIndex of
                        None \<Rightarrow> Inr (refs1[ni := linked])
                      | Some old \<Rightarrow>
                          if js_ge dupeScore (score old) then Inr (refs1[ni := linked])
                          else Inr refs1)))"

text \<open>
  \<open>sortedRefs[i][step.sort] === sortedRefs[n][step.sort]\<close>: the property read is
  named by the sort key converted to a string, which for a list of field names is the
  comma-joined list. Strict equality holds between two equal strings and between two
  \<open>undefined\<close>. Two arrays are strictly equal only as one and the same object; the
  values here carry no identity, and the arrays of two records are taken to be two
  objects.
\<close>

definition sort_property :: "sortkey option \<Rightarrow> string" where
  "sort_property key =
     (case key of None \<Rightarrow> ''undefined'' | Some (SortField f) \<Rightarrow> f
      | Some (SortList fs) \<Rightarrow> join '','' fs)"

fun strict_eq :: "fieldval \<Rightarrow> fieldval \<Rightarrow> bool" where
  "strict_eq Absent Absent = True"
| "strict_eq (Str a) (Str b) = (a = b)"
| "strict_eq _ _ = False"

text \<open>\<open>n++\<close> and the move to the next anchor when \<open>n\<close> has reached the end.\<close>

definition next_candidate :: "nat \<Rightarrow> nat \<Rightarrow> nat \<Rightarrow> nat \<times> nat" where
  "next_candidate len i n = (if n + 1 \<ge> len then (i + 1, i + 2) else (i, n + 1))"

text \<open>One iteration of the \<open>while\<close> loop: the new \<open>i\<close>, \<open>n\<close> and records. Reading a
  field of a position outside the sorted array is a \<open>TypeError\<close>.\<close>

definition sweep_body ::
  "settings \<Rightarrow> (string \<Rightarrow> comparison_handler option) \<Rightarrow> step \<Rightarrow> nat \<Rightarrow> nat list
     \<Rightarrow> nat \<Rightarrow> nat \<Rightarrow> wref list \<Rightarrow> js_error + (nat \<times> nat) \<times> wref list" where
  "sweep_body S cmps step stepIndex sortedRefs i n refs =
     (if i < length sortedRefs \<and> n < length sortedRefs
         \<and> sortedRefs ! i < length refs \<and> sortedRefs ! n < length refs then
        (let a = refs ! (sortedRefs ! i); b = refs ! (sortedRefs ! n) in
         case compareViaStep S cmps a b step of
           Inl e \<Rightarrow> Inl e
         | Inr dupeScore \<Rightarrow>
             if js_gt dupeScore (Num 0) then
               (case record_dupe S stepIndex dupeScore (sortedRefs ! i) (sortedRefs ! n) refs of
                  Inl e \<Rightarrow> Inl e
                | Inr refs2 \<Rightarrow> Inr (next_candidate (length sortedRefs) i n, refs2))
             else if strict_eq (flds a (sort_property (sort' step)))
                               (flds b (sort_property (sort' step))) then
               Inr (next_candidate (length sortedRefs) i n, refs)
             else Inr ((i + 1, i + 2), refs))
      else Inl TypeError)"

lemma sweep_body_cursor:
  assumes "sweep_body S cmps step stepIndex sortedRefs i n refs = Inr ((i2, n2), refs2)"
  shows "i < length sortedRefs \<and> n < length sortedRefs
         \<and> ((i2 = i \<and> n2 = n + 1 \<and> n2 < length sortedRefs) \<or> (i2 = i + 1 \<and> n2 = i + 2))"
  using assms
  by (auto simp: sweep_body_def next_candidate_def Let_def split: if_splits sum.splits)

function sweep_loop ::
  "settings \<Rightarrow> (string \<Rightarrow> comparison_handler option) \<Rightarrow> step \<Rightarrow> nat \<Rightarrow> nat list
     \<Rightarrow> nat \<Rightarrow> nat \<Rightarrow> wref list \<Rightarrow> js_error + wref list" where
  "sweep_loop S cmps step stepIndex sortedRefs i n refs =
     (if n < length sortedRefs then
        (case sweep_body S cmps step stepIndex sortedRefs i n refs of
           Inl e \<Rightarrow> Inl e
         | Inr ((i2, n2), refs2) \<Rightarrow> sweep_loop S cmps step stepIndex sortedRefs i2 n2 refs2)
      else Inr refs)"
  by pat_completeness auto
termination
proof (relation "measures [\<lambda>(S, cmps, step, stepIndex, sortedRefs, i, n, refs). length sortedRefs - i,
                          \<lambda>(S, cmps, step, stepIndex, sortedRefs, i, n, refs). length sortedRefs - n]",
       goal_cases)
  case 1
  show ?case by simp
next
  case (2 S cmps step stepIndex sortedRefs i n refs x2 x y i2 n2)
  then have "sweep_body S cmps step stepIndex sortedRefs i n refs = Inr ((i2, n2), y)"
    by simp
  from sweep_body_cursor[OF this] show ?case
    by auto
qed

declare sweep_loop.simps [simp del]

text \<open>
  The loop over the steps. \<open>sortedBy\<close> and \<open>sortedRefs\<close> are kept from one step to the
  next, and the records are sorted again when \<open>!sortedBy || sortedBy != step.sort\<close>. Two
  lists of field names are two objects and so differ; sorting again by the same list
  gives the order the source keeps when a list object is shared by two steps.
\<close>

definition sort_falsy :: "sortkey option \<Rightarrow> bool" where
  "sort_falsy key =
     (case key of None \<Rightarrow> True | Some (SortField f) \<Rightarrow> f = [] | Some (SortList fs) \<Rightarrow> False)"

fun sort_differs :: "sortkey option \<Rightarrow> sortkey option \<Rightarrow> bool" where
  "sort_differs (Some (SortField a)) (Some (SortField b)) = (a \<noteq> b)"
| "sort_differs (Some (SortField a)) (Some (SortList b)) = (a \<noteq> join '','' b)"
| "sort_differs (Some (SortList a)) (Some (SortField b)) = (join '','' a \<noteq> b)"
| "sort_differs None None = False"
| "sort_differs _ _ = True"

fun sweep_steps ::
  "settings \<Rightarrow> (string \<Rightarrow> comparison_handler option) \<Rightarrow> sortkey option \<Rightarrow> nat list \<Rightarrow> nat
     \<Rightarrow> step list \<Rightarrow> wref list \<Rightarrow> js_error + wref list" where
  "sweep_steps S cmps sortedBy sortedRefs stepIndex [] refs = Inr refs"
| "sweep_steps S cmps sortedBy sortedRefs stepIndex (step # rest) refs =
     (let resort = (sort_falsy sortedBy \<or> sort_differs sortedBy (sort' step));
          sortedRefs2 = (if resort then sortBy refs (sort' step) else sortedRefs);
          sortedBy2 = (if resort then sort' step else sortedBy)
      in case sweep_loop S cmps step stepIndex sortedRefs2 0 1 refs of
           Inl e \<Rightarrow> Inl e
         | Inr refs2 \<Rightarrow> sweep_steps S cmps sortedBy2 sortedRefs2 (Suc stepIndex) rest refs2)"

section \<open>The aggregator\<close>

text \<open>
  \<open>_.sum\<close> adds the entries that are not \<open>undefined\<close> (the holes of the mapped array)
  and is \<open>undefined\<close> when there is none; the sum is divided by the \<open>length\<close> of
  \<open>dedupe.steps\<close>.
\<close>

fun baseSum :: "jsval option \<Rightarrow> jsval option list \<Rightarrow> jsval option" where
  "baseSum result [] = result"
| "baseSum result (None # rest) = baseSum result rest"
| "baseSum result (Some current # rest) =
     baseSum (case result of None \<Rightarrow> Some current | Some r \<Rightarrow> Some (js_plus r current)) rest"

definition aggregate :: "wref \<Rightarrow> js_error + wref" where
  "aggregate ref =
     (case dedupe_steps ref of
        None \<Rightarrow> Inl TypeError
      | Some ss \<Rightarrow>
          Inr (ref\<lparr>dedupe_score := Some
            (if length ss > 0 then
               (case baseSum None (map (map_option score) ss) of
                  None \<Rightarrow> NaN
                | Some summed \<Rightarrow> js_div summed (length ss))
             else Num 0)\<rparr>))"

text \<open>\<open>refs.map(ref => ...)\<close> with the aggregator.\<close>

fun aggregate_all :: "wref list \<Rightarrow> js_error + wref list" where
  "aggregate_all [] = Inr []"
| "aggregate_all (ref # rest) =
     (case aggregate ref of
        Inl e \<Rightarrow> Inl e
      | Inr w \<Rightarrow>
          (case aggregate_all rest of
             Inl e \<Rightarrow> Inl e
           | Inr ws \<Rightarrow> Inr (w # ws)))"

section \<open>The action dispatcher\<close>

text \<open>
  An output record under STATS and MARK is the original with the action field set;
  DELETE returns original records themselves.
\<close>

datatype outval = Field fieldval | Stats jsval "refid list"

type_synonym outref = "string \<Rightarrow> outval"

datatype run_output = Decorated "outref list" | Kept "reference list"

definition decorate :: "reference \<Rightarrow> string \<Rightarrow> outval \<Rightarrow> outref" where
  "decorate ref field v = (\<lambda>f. if f = field then v else Field (ref f))"

text \<open>\<open>_.uniq\<close> keeps the first occurrence of each value. The chain
  \<open>_(steps).map('dupeOf')\<close> reads a hole as \<open>undefined\<close>, and is empty on a \<open>steps\<close> that
  is \<open>undefined\<close>.\<close>

fun uniq_from :: "'a list \<Rightarrow> 'a list \<Rightarrow> 'a list" where
  "uniq_from seen [] = []"
| "uniq_from seen (x # xs) =
     (if x \<in> set seen then uniq_from seen xs else x # uniq_from (x # seen) xs)"

definition dupeOf_list :: "wref \<Rightarrow> refid list" where
  "dupeOf_list ref =
     map the (filter (\<lambda>v. v \<noteq> None)
       (uniq_from [] (map (\<lambda>s. case s of None \<Rightarrow> None | Some r \<Rightarrow> dupeOf r)
                          (case dedupe_steps ref of None \<Rightarrow> [] | Some ss \<Rightarrow> ss))))"

definition final_score :: "wref \<Rightarrow> jsval" where
  "final_score ref = (case dedupe_score ref of None \<Rightarrow> NaN | Some s \<Rightarrow> s)"

definition apply_mark :: "mark \<Rightarrow> reference \<Rightarrow> fieldval" where
  "apply_mark m ref = (case m of MarkValue v \<Rightarrow> v | MarkFunction f \<Rightarrow> f ref)"

text \<open>The last stage of \<open>run\<close>: \<open>output\<close> is the input array, \<open>refs\<close> the aggregated
  working records. \<open>refs[refIndex]\<close> past the end of \<open>refs\<close> is \<open>undefined\<close>, and its
  \<open>dedupe\<close> a \<open>TypeError\<close>.\<close>

definition dispatch ::
  "settings \<Rightarrow> action_kind \<Rightarrow> reference list \<Rightarrow> wref list \<Rightarrow> js_error + run_output" where
  "dispatch S act output refs =
     (if length refs < length output then Inl TypeError
      else (case act of
        STATS \<Rightarrow>
          Inr (Decorated (map (\<lambda>(ref, refIndex).
                 decorate ref (actionField S)
                   (Stats (final_score (refs ! refIndex)) (dupeOf_list (refs ! refIndex))))
               (zip output [0..<length output])))
      | MARK \<Rightarrow>
          Inr (Decorated (map (\<lambda>(ref, refIndex).
                 decorate ref (actionField S)
                   (Field (if js_ge (final_score (refs ! refIndex)) (Num (threshold S))
                           then apply_mark (markDupe S) ref
                           else apply_mark (markOk S) ref)))
               (zip output [0..<length output])))
      | DELETE \<Rightarrow>
          Inr (Kept (map fst (filter (\<lambda>(ref, refIndex).
                 js_lt (final_score (refs ! refIndex)) (Num (threshold S)))
               (zip output [0..<length output]))))))"

section \<open>The run\<close>

text \<open>
  \<open>run(input)\<close> on an array of references, with the catalogue of strategies and the
  two registries of the instance as parameters. Progress and the \<open>runMutated\<close> event
  are notifications and have no part in the result. \<open>aggregated\<close> is the promise chain
  up to and with the aggregator: the checked action and the working records with
  their \<open>dedupe.score\<close>; \<open>run\<close> adds the last stage.
\<close>

definition aggregated ::
  "settings \<Rightarrow> (string \<Rightarrow> strategy option) \<Rightarrow> (string \<Rightarrow> mutator option)
     \<Rightarrow> (string \<Rightarrow> comparison_handler option) \<Rightarrow> reference list
     \<Rightarrow> js_error + action_kind \<times> wref list" where
  "aggregated S strategies muts cmps input =
     (case ACTIONS (action S) of
        None \<Rightarrow> Inl (Error (''Invalid action '' @ [CHR 0x22] @ show_nat (action S) @ [CHR 0x22]
                              @ '' - choose one action from Dedupe.ACTIONS''))
      | Some act \<Rightarrow>
          if dupeRef S \<noteq> INDEX \<and> dupeRef S \<noteq> RECNUMBER then
            Inl (Error (''Invalid dupeRef '' @ [CHR 0x22] @ show_nat (dupeRef S) @ [CHR 0x22]
                        @ '' - choose one action from Dedupe.DUPEREF''))
          else (case strategies (strategy S) of
            None \<Rightarrow> Inl (Error ''Unknown strategy specified'')
          | Some strat \<Rightarrow>
              (case steps strat of
                 None \<Rightarrow> Inl (Error ''Invalid strategy schema'')
               | Some sts \<Rightarrow>
                   (case (if validateStrategy' S then validateStrategy strat else Inr Valid) of
                      Inl e \<Rightarrow> Inl e
                    | Inr (Errors sErrs) \<Rightarrow>
                        Inl (Error (''Invalid strategy - '' @ join '', '' sErrs))
                    | Inr Valid \<Rightarrow>
                        (case run_mutators muts strat input 0 of
                           Inl e \<Rightarrow> Inl e
                         | Inr refs \<Rightarrow>
                             (case sweep_steps S cmps None [] 0 sts refs of
                                Inl e \<Rightarrow> Inl e
                              | Inr refs2 \<Rightarrow>
                                  (case aggregate_all refs2 of
                                     Inl e \<Rightarrow> Inl e
                                   | Inr refs3 \<Rightarrow> Inr (act, refs3))))))))"

definition run ::
  "settings \<Rightarrow> (string \<Rightarrow> strategy option) \<Rightarrow> (string \<Rightarrow> mutator option)
     \<Rightarrow> (string \<Rightarrow> comparison_handler option) \<Rightarrow> reference list \<Rightarrow> js_error + run_output" where
  "run S strategies muts cmps input =
     (case aggregated S strategies muts cmps input of
        Inl e \<Rightarrow> Inl e
      | Inr (act, refs) \<Rightarrow> dispatch S act input refs)"

section \<open>The settings of a new instance, a strategy of the catalogue, and sample data\<close>

text \<open>The initial \<open>settings\<close> of the class.\<close>

definition default_settings :: settings where
  "default_settings =
     \<lparr>strategy = ''clark'', validateStrategy' = True, action = 0, actionField = ''dedupe'',
      threshold = 1 / 10, markOk = MarkValue (Str ''OK''), markDupe = MarkValue (Str ''DUPE''),
      dupeRef = 0, fieldWeight = 0, markOriginal = False\<rparr>"

text \<open>\<open>strategies/bramer.js\<close>.\<close>

definition bramer :: strategy where
  "bramer =
     \<lparr>title = Some ''Bramer et. al.'',
      description = Some (''<a href='' @ [CHR 0x22] @ ''https://doi.org/10.3163/1536-5050.104.3.014''
                          @ [CHR 0x22] @ ''>Bramer et. al.</a> deduplication sweep strategy''),
      mutators = Some [(''author'', [''authorRewrite'']), (''doi'', [''doiRewrite'']),
                       (''title'', [''deburr'', ''alphaNumericOnly'', ''noCase'']),
                       (''year'', [''numericOnly''])],
      steps = Some
        [\<lparr>fields' = Some [''doi''], sort' = Some (SortField ''doi''),
          comparison = Some ''exact'', skipOmitted = None\<rparr>,
         \<lparr>fields' = Some [''author'', ''year'', ''title'', ''journal''],
          sort' = Some (SortField ''title''), comparison = Some ''exact'', skipOmitted = None\<rparr>,
         \<lparr>fields' = Some [''author'', ''year'', ''title'', ''pages''],
          sort' = Some (SortField ''pages''), comparison = Some ''exact'', skipOmitted = None\<rparr>,
         \<lparr>fields' = Some [''title'', ''volume'', ''pages''],
          sort' = Some (SortField ''title''), comparison = Some ''exact'', skipOmitted = None\<rparr>,
         \<lparr>fields' = Some [''authors'', ''volume'', ''pages''],
          sort' = Some (SortField ''title''), comparison = Some ''exact'', skipOmitted = None\<rparr>,
         \<lparr>fields' = Some [''year'', ''volume'', ''issue'', ''pages''],
          sort' = Some (SortField ''title''), comparison = Some ''exact'', skipOmitted = None\<rparr>,
         \<lparr>fields' = Some [''title''], sort' = Some (SortField ''title''),
          comparison = Some ''exact'', skipOmitted = None\<rparr>,
         \<lparr>fields' = Some [''authors'', ''year''], sort' = Some (SortField ''title''),
          comparison = Some ''exact'', skipOmitted = None\<rparr>]\<rparr>"

text \<open>
  Sample data: three references, of which the first two share their DOI and the last
  two their title, and a strategy of two steps, the first on the DOI and the second on
  the title and the year.
\<close>

definition ref_a :: reference where
  "ref_a = (\<lambda>f. Absent)(''doi'' := Str ''10.1000/1'', ''title'' := Str ''Alpha'',
                          ''year'' := Str ''2001'')"

definition ref_b :: reference where
  "ref_b = (\<lambda>f. Absent)(''doi'' := Str ''10.1000/1'', ''title'' := Str ''Beta'',
                          ''year'' := Str ''2002'')"

definition ref_c :: reference where
  "ref_c = (\<lambda>f. Absent)(''doi'' := Str ''10.1000/2'', ''title'' := Str ''Beta'',
                          ''year'' := Str ''2002'')"

text \<open>The first two references again, both with the record number 7.\<close>

definition ref_a7 :: reference where
  "ref_a7 = ref_a(''refNumber'' := Str ''7'')"

definition ref_b7 :: reference where
  "ref_b7 = ref_b(''refNumber'' := Str ''7'')"

definition doi_step :: step where
  "doi_step = \<lparr>fields' = Some [''doi''], sort' = Some (SortField ''doi''),
               comparison = Some ''exact'', skipOmitted = None\<rparr>"

definition title_year_step :: step where
  "title_year_step = \<lparr>fields' = Some [''title'', ''year''], sort' = Some (SortField ''title''),
                      comparison = Some ''exact'', skipOmitted = None\<rparr>"

definition sample_strategy :: strategy where
  "sample_strategy =
     \<lparr>title = Some ''Sample'', description = Some ''DOI, then title and year'',
      mutators = Some [(''doi'', [''doiRewrite'']), (''year'', [''numericOnly''])],
      steps = Some [doi_step, title_year_step]\<rparr>"

definition sample_settings :: settings where
  "sample_settings = default_settings\<lparr>strategy := ''sample''\<rparr>"

definition sample_mutators :: "string \<Rightarrow> mutator option" where
  "sample_mutators = [''doiRewrite'' \<mapsto> doiRewrite, ''numericOnly'' \<mapsto> numericOnly]"

definition sample_comparisons :: "string \<Rightarrow> comparison_handler option" where
  "sample_comparisons = comparisons (\<lambda>a b. Inr NaN)"

text \<open>The working record of a reference at a position, with no mutators.\<close>

definition plain_wref :: "reference \<Rightarrow> nat \<Rightarrow> wref" where
  "plain_wref r k =
     \<lparr>index = RefNum k, recNumber = RefNum (k + 1), dedupe_steps = Some [],
      dedupe_score = None, flds = r\<rparr>"

text \<open>Two more steps for the sample data: both compare the DOI; one sorts by the
  title, the other by the list of the title and the year.\<close>

definition doi_by_title_step :: step where
  "doi_by_title_step = \<lparr>fields' = Some [''doi''], sort' = Some (SortField ''title''),
                        comparison = Some ''exact'', skipOmitted = None\<rparr>"

definition doi_by_title_year_step :: step where
  "doi_by_title_year_step =
     \<lparr>fields' = Some [''doi''], sort' = Some (SortList [''title'', ''year'']),
      comparison = Some ''exact'', skipOmitted = None\<rparr>"

section \<open>The entry of a step and the invariant of the scan\<close>

text \<open>\<open>dedupe.steps[stepIndex]\<close> of the record at position \<open>k\<close> of \<open>refs\<close>.\<close>

definition step_entry :: "nat \<Rightarrow> wref list \<Rightarrow> nat \<Rightarrow> step_result option" where
  "step_entry stepIndex refs k =
     (case dedupe_steps (refs ! k) of None \<Rightarrow> None | Some ss \<Rightarrow> get_step ss stepIndex)"

text \<open>
  The invariant of the loop of a step, from the records \<open>refs0\<close> at its start: the
  records keep their number and their identities, and an entry that is not the one
  the record had at the start and has a \<open>dupeOf\<close> has the identity of a record at an
  earlier position of the sorted array.
\<close>

definition backrefs_ok :: "settings \<Rightarrow> nat \<Rightarrow> nat list \<Rightarrow> wref list \<Rightarrow> wref list \<Rightarrow> bool" where
  "backrefs_ok S stepIndex sortedRefs refs0 refs =
     (length refs = length refs0
      \<and> (\<forall>k<length refs0. backref S (refs ! k) = backref S (refs0 ! k))
      \<and> (\<forall>p<length sortedRefs. \<forall>r d.
            step_entry stepIndex refs (sortedRefs ! p) = Some r \<longrightarrow>
            step_entry stepIndex refs0 (sortedRefs ! p) \<noteq> Some r \<longrightarrow>
            dupeOf r = Some d \<longrightarrow>
            (\<exists>q<p. d = backref S (refs0 ! (sortedRefs ! q)))))"

section \<open>The working records keep the length of the input\<close>

lemma run_mutators_length:
  "run_mutators muts strat input k = Inr refs \<Longrightarrow> length refs = length input"
  by (induction input arbitrary: k refs) (auto split: sum.splits)

lemma record_dupe_length:
  "record_dupe S stepIndex sc ai ni refs = Inr refs2 \<Longrightarrow> length refs2 = length refs"
  by (auto simp: record_dupe_def Let_def split: option.splits if_splits)

lemma aggregate_all_length:
  "aggregate_all refs = Inr refs2 \<Longrightarrow> length refs2 = length refs"
  by (induction refs arbitrary: refs2) (auto split: sum.splits)

lemma sweep_body_length:
  "sweep_body S cmps step stepIndex sortedRefs i n refs = Inr (c, refs2) \<Longrightarrow> length refs2 = length refs"
  unfolding sweep_body_def Let_def
  by (auto split: if_splits sum.splits dest: record_dupe_length)

lemma sweep_loop_unfold:
  "n < length sortedRefs \<Longrightarrow>
   sweep_body S cmps step stepIndex sortedRefs i n refs = Inr ((i2, n2), refs1) \<Longrightarrow>
   sweep_loop S cmps step stepIndex sortedRefs i n refs
     = sweep_loop S cmps step stepIndex sortedRefs i2 n2 refs1"
  by (subst sweep_loop.simps) simp

lemma sweep_loop_stop:
  "\<not> n < length sortedRefs \<Longrightarrow> sweep_loop S cmps step stepIndex sortedRefs i n refs = Inr refs"
  by (subst sweep_loop.simps) simp

lemma sweep_loop_Inr_cases:
  assumes "sweep_loop S cmps step stepIndex sortedRefs i n refs = Inr refs2"
    and "n < length sortedRefs"
  obtains i2 n2 refs1 where
    "sweep_body S cmps step stepIndex sortedRefs i n refs = Inr ((i2, n2), refs1)"
    "sweep_loop S cmps step stepIndex sortedRefs i2 n2 refs1 = Inr refs2"
  using assms by (subst (asm) sweep_loop.simps) (auto split: sum.splits)

lemma sweep_loop_length:
  "sweep_loop S cmps step stepIndex sortedRefs i n refs = Inr refs2 \<Longrightarrow> length refs2 = length refs"
proof (induction S cmps step stepIndex sortedRefs i n refs rule: sweep_loop.induct)
  case (1 S cmps step stepIndex sortedRefs i n refs)
  show ?case
  proof (cases "n < length sortedRefs")
    case False
    with "1.prems" show ?thesis by (simp add: sweep_loop_stop)
  next
    case True
    from "1.prems" True obtain i2 n2 refs1 where
      b: "sweep_body S cmps step stepIndex sortedRefs i n refs = Inr ((i2, n2), refs1)"
      and l: "sweep_loop S cmps step stepIndex sortedRefs i2 n2 refs1 = Inr refs2"
      by (rule sweep_loop_Inr_cases)
    from "1.IH"[OF True b refl refl l] sweep_body_length[OF b] show ?thesis by simp
  qed
qed

lemma sweep_steps_length:
  "sweep_steps S cmps sortedBy sortedRefs stepIndex sts refs = Inr refs2 \<Longrightarrow> length refs2 = length refs"
proof (induction sts arbitrary: sortedBy sortedRefs stepIndex refs)
  case Nil
  then show ?case by simp
next
  case (Cons step rest)
  from Cons.prems obtain sr refs1 sb where
    l: "sweep_loop S cmps step stepIndex sr 0 1 refs = Inr refs1"
    and r: "sweep_steps S cmps sb sr (Suc stepIndex) rest refs1 = Inr refs2"
    by (auto simp: Let_def split: sum.splits)
  from Cons.IH[OF r] sweep_loop_length[OF l] show ?case by simp
qed

lemma aggregated_length:
  assumes "aggregated S strategies muts cmps input = Inr (act, refs)"
  shows "length refs = length input \<and> ACTIONS (action S) = Some act"
proof -
  from assms obtain strat sts refs0 refs1 where
    a: "ACTIONS (action S) = Some act"
    and m: "run_mutators muts strat input 0 = Inr refs0"
    and s: "sweep_steps S cmps None [] 0 sts refs0 = Inr refs1"
    and r: "aggregate_all refs1 = Inr refs"
    unfolding aggregated_def
    by (auto split: option.splits if_splits sum.splits validation.splits)
  from run_mutators_length[OF m] sweep_steps_length[OF s] aggregate_all_length[OF r] a
  show ?thesis by simp
qed

section \<open>Comparison, validation and score on particular inputs\<close>

text \<open>
  C4: the \<open>exact\<close> comparison returns the number 1 on equal values and the number 0
  otherwise, arrays included. On two arrays the handler returns the result of \<open>==\<close>
  between their JSON texts, a boolean: \<open>true\<close> for two structurally equal arrays and
  \<open>false\<close> for two different ones. On strings it returns the numbers 1 and 0.
\<close>

theorem exact_on_arrays_is_boolean:
  "exact (Arr [''Smith'', ''Jones'']) (Arr [''Smith'', ''Jones'']) = Inr (Boolean True)
   \<and> exact (Arr [''Smith'', ''Jones'']) (Arr [''Smith'']) = Inr (Boolean False)
   \<and> exact (Str ''Smith'') (Str ''Smith'') = Inr (Num 1)
   \<and> exact (Str ''Smith'') (Str ''Jones'') = Inr (Num 0)"
  by (simp add: JSON_stringify_def)

text \<open>
  C5: \<open>validateStrategy\<close> returns \<open>true\<close> or the list of all violations for every
  strategy object, one without \<open>steps\<close> included, and raises nothing. On a strategy
  with a title, a description and mutators but no \<open>steps\<close> the call raises a
  \<open>TypeError\<close>: the message for the missing field is pushed, and the read of
  \<open>strategy.steps.length\<close> that follows is not guarded.
\<close>

theorem validateStrategy_without_steps:
  "validateStrategy \<lparr>title = Some ''Sample'', description = Some ''No steps'',
                     mutators = Some [], steps = None\<rparr> = Inl TypeError"
  by (simp add: validateStrategy_def)

text \<open>What \<open>compareViaStepAvg\<close> divides by the number of fields is the score of the
  last field.\<close>

lemma avg_reduce_last:
  "avg_reduce f r fs = Inr x \<Longrightarrow> fs \<noteq> [] \<Longrightarrow> f (last fs) = Inr x"
  by (induction fs arbitrary: r) (auto split: sum.splits)

lemma compareViaStepAvg_last_field:
  assumes "fields' step = Some fs" and "fs \<noteq> []"
    and "compareViaStepAvg cmps a b step = Inr r"
  shows "\<exists>s. field_score cmps step a b (last fs) = Inr s \<and> r = js_div s (length fs)"
  using assms
  by (auto simp: compareViaStepAvg_def split: sum.splits dest: avg_reduce_last)

text \<open>
  C1: under the field weight AVERAGE the score of a step is the arithmetic mean of the
  scores of its fields. For the step on the title and the year and two records that
  agree on both, each field scores 1, so the mean is 1; \<open>compareViaStepAvg\<close> returns
  one half, the score of the last field divided by the number of fields.
\<close>

theorem average_of_two_equal_fields:
  "field_score sample_comparisons title_year_step (plain_wref ref_b 1) (plain_wref ref_c 2) ''title''
     = Inr (Num 1)
   \<and> field_score sample_comparisons title_year_step (plain_wref ref_b 1) (plain_wref ref_c 2) ''year''
     = Inr (Num 1)
   \<and> compareViaStep (sample_settings\<lparr>fieldWeight := AVERAGE\<rparr>) sample_comparisons
        (plain_wref ref_b 1) (plain_wref ref_c 2) title_year_step = Inr (Num (1 / 2))"
  by code_simp

text \<open>
  C2: \<open>dedupe.score\<close> is the arithmetic mean of the populated step scores. In the run
  on the three sample references the third one has no entry for the first step and
  the entry of score 1 for the second: the mean of its populated scores is 1, and the
  aggregator sets its score to one half, the sum divided by the length of the sparse
  array.
\<close>

theorem score_of_a_record_matched_in_the_second_step_only:
  "map_sum id (map_prod id (map (\<lambda>w. (dedupe_steps w, dedupe_score w))))
     (aggregated sample_settings [''sample'' \<mapsto> sample_strategy] sample_mutators
        sample_comparisons [ref_a, ref_b, ref_c])
   = Inr (STATS,
       [(Some [Some \<lparr>score = Num 0, dupeOf = None\<rparr>], Some (Num 0)),
        (Some [Some \<lparr>score = Num 1, dupeOf = Some (RefNum 0)\<rparr>,
               Some \<lparr>score = Num 0, dupeOf = None\<rparr>],
         Some (Num (1 / 2))),
        (Some [None, Some \<lparr>score = Num 1, dupeOf = Some (RefNum 1)\<rparr>], Some (Num (1 / 2)))])"
  by code_simp

section \<open>The scan of a step\<close>

text \<open>
  C3: when the score of the pair at \<open>i\<close> and \<open>n\<close> is 0, the scan stays on the anchor
  \<open>i\<close> if the two records have equal sort-key values and otherwise moves to the anchor
  \<open>i + 1\<close> with \<open>n = i + 2\<close>, also for a step whose sort key is a list of field names.
  Three records in the order of their titles and years, scanned by the step that
  compares the DOI and sorts by the list of the title and the year, which the
  validation accepts and \<open>_.sortBy\<close> sorts by: the first two differ in the title and
  in the year and their score is 0, and from \<open>i = 0\<close>, \<open>n = 1\<close> the scan goes to
  \<open>i = 0\<close>, \<open>n = 2\<close>, not to \<open>i = 1\<close>, \<open>n = 2\<close>. The property the source reads for the
  comparison is named by the joined list, and no record has it. With the title alone
  as sort key the same scan goes to \<open>i = 1\<close>, \<open>n = 2\<close>.
\<close>

theorem list_sort_key_keeps_the_anchor:
  "step_errors doi_by_title_year_step 0 = []
   \<and> sortBy [plain_wref ref_a 0, plain_wref ref_c 1, plain_wref ref_b 2]
        (sort' doi_by_title_year_step) = [0, 1, 2]
   \<and> compareViaStep sample_settings sample_comparisons (plain_wref ref_a 0) (plain_wref ref_c 1)
        doi_by_title_year_step = Inr (Num 0)
   \<and> flds (plain_wref ref_a 0) ''title'' \<noteq> flds (plain_wref ref_c 1) ''title''
   \<and> flds (plain_wref ref_a 0) ''year'' \<noteq> flds (plain_wref ref_c 1) ''year''
   \<and> map_sum id fst (sweep_body sample_settings sample_comparisons doi_by_title_year_step 0
        [0, 1, 2] 0 1 [plain_wref ref_a 0, plain_wref ref_c 1, plain_wref ref_b 2]) = Inr (0, 2)
   \<and> map_sum id fst (sweep_body sample_settings sample_comparisons doi_by_title_step 0
        [0, 1, 2] 0 1 [plain_wref ref_a 0, plain_wref ref_c 1, plain_wref ref_b 2]) = Inr (1, 2)"
  by code_simp

lemma get_set_step: "get_step (set_step ss k v) k = Some v"
  by (simp add: get_step_def set_step_def nth_append)

lemma backref_dedupe_steps_update [simp]:
  "backref S (w\<lparr>dedupe_steps := x\<rparr>) = backref S w"
  by (simp add: backref_def)

lemma record_dupe_effect:
  assumes "record_dupe S stepIndex sc ai ni rs = Inr rs2"
    and "ai < length rs" and "ni < length rs" and "ai \<noteq> ni"
  shows "length rs2 = length rs"
    and "\<And>k. k < length rs \<Longrightarrow> backref S (rs2 ! k) = backref S (rs ! k)"
    and "\<And>k. k \<noteq> ai \<Longrightarrow> k \<noteq> ni \<Longrightarrow> step_entry stepIndex rs2 k = step_entry stepIndex rs k"
    and "step_entry stepIndex rs2 ai = step_entry stepIndex rs ai
         \<or> (\<exists>x. step_entry stepIndex rs2 ai = Some \<lparr>score = x, dupeOf = None\<rparr>)"
    and "step_entry stepIndex rs2 ni = step_entry stepIndex rs ni
         \<or> step_entry stepIndex rs2 ni
             = Some \<lparr>score = sc, dupeOf = Some (backref S (rs ! ai))\<rparr>"
proof -
  from assms(1) show "length rs2 = length rs"
    by (rule record_dupe_length)
  show "backref S (rs2 ! k) = backref S (rs ! k)" if "k < length rs" for k
    using that assms
    by (auto simp: record_dupe_def Let_def nth_list_update split: option.splits if_splits)
  show "step_entry stepIndex rs2 k = step_entry stepIndex rs k" if "k \<noteq> ai" "k \<noteq> ni" for k
    using that assms
    by (auto simp: record_dupe_def Let_def step_entry_def split: option.splits if_splits)
  show "step_entry stepIndex rs2 ai = step_entry stepIndex rs ai
         \<or> (\<exists>x. step_entry stepIndex rs2 ai = Some \<lparr>score = x, dupeOf = None\<rparr>)"
    using assms
    by (auto simp: record_dupe_def Let_def step_entry_def get_set_step
             split: option.splits if_splits)
  show "step_entry stepIndex rs2 ni = step_entry stepIndex rs ni
         \<or> step_entry stepIndex rs2 ni
             = Some \<lparr>score = sc, dupeOf = Some (backref S (rs ! ai))\<rparr>"
    using assms
    by (auto simp: record_dupe_def Let_def step_entry_def get_set_step
             split: option.splits if_splits)
qed

lemma sweep_body_refs:
  assumes "sweep_body S cmps step stepIndex sortedRefs i n rs = Inr (c, rs2)"
  shows "rs2 = rs
         \<or> (\<exists>sc. record_dupe S stepIndex sc (sortedRefs ! i) (sortedRefs ! n) rs = Inr rs2)"
  using assms unfolding sweep_body_def Let_def
  by (auto split: if_splits sum.splits)

lemma sweep_body_backrefs:
  assumes dist: "distinct sortedRefs"
    and range: "\<forall>k\<in>set sortedRefs. k < length refs0"
    and inv: "backrefs_ok S stepIndex sortedRefs refs0 rs"
    and lt: "i < n"
    and body: "sweep_body S cmps step stepIndex sortedRefs i n rs = Inr ((i2, n2), rs2)"
  shows "backrefs_ok S stepIndex sortedRefs refs0 rs2 \<and> i2 < n2"
proof -
  from sweep_body_cursor[OF body] lt
  have il: "i < length sortedRefs" and nl: "n < length sortedRefs" and c: "i2 < n2"
    by auto
  from inv have len: "length rs = length refs0"
    and br: "\<And>k. k < length refs0 \<Longrightarrow> backref S (rs ! k) = backref S (refs0 ! k)"
    and old: "\<And>p r d. p < length sortedRefs \<Longrightarrow>
                step_entry stepIndex rs (sortedRefs ! p) = Some r \<Longrightarrow>
                step_entry stepIndex refs0 (sortedRefs ! p) \<noteq> Some r \<Longrightarrow>
                dupeOf r = Some d \<Longrightarrow> \<exists>q<p. d = backref S (refs0 ! (sortedRefs ! q))"
    unfolding backrefs_ok_def by blast+
  let ?a = "sortedRefs ! i" and ?b = "sortedRefs ! n"
  from range il nl len have al: "?a < length rs" and bl: "?b < length rs" by simp_all
  from dist il nl lt have ab: "?a \<noteq> ?b" by (simp add: nth_eq_iff_index_eq)
  from sweep_body_refs[OF body] show ?thesis
  proof
    assume "rs2 = rs"
    with inv c show ?thesis by simp
  next
    assume "\<exists>sc. record_dupe S stepIndex sc ?a ?b rs = Inr rs2"
    then obtain sc where rs2: "record_dupe S stepIndex sc ?a ?b rs = Inr rs2" ..
    note eff = record_dupe_effect[OF rs2 al bl ab]
    have "\<exists>q<p. d = backref S (refs0 ! (sortedRefs ! q))"
      if p: "p < length sortedRefs"
        and e: "step_entry stepIndex rs2 (sortedRefs ! p) = Some r"
        and ne: "step_entry stepIndex refs0 (sortedRefs ! p) \<noteq> Some r"
        and d: "dupeOf r = Some d" for p r d
    proof -
      consider (anchor) "p = i" | (candidate) "p = n" | (other) "p \<noteq> i" "p \<noteq> n" by blast
      then show ?thesis
      proof cases
        case anchor
        from eff(4) e d anchor have "step_entry stepIndex rs (sortedRefs ! p) = Some r"
          by auto
        from old[OF p this ne d] show ?thesis .
      next
        case candidate
        from eff(5) candidate
        consider "step_entry stepIndex rs2 (sortedRefs ! p) = step_entry stepIndex rs (sortedRefs ! p)"
          | "step_entry stepIndex rs2 (sortedRefs ! p)
              = Some \<lparr>score = sc, dupeOf = Some (backref S (rs ! ?a))\<rparr>"
          by auto
        then show ?thesis
        proof cases
          case 1
          with e have "step_entry stepIndex rs (sortedRefs ! p) = Some r" by simp
          from old[OF p this ne d] show ?thesis .
        next
          case 2
          with e d have "d = backref S (rs ! ?a)" by auto
          with br al len have "d = backref S (refs0 ! ?a)" by simp
          with lt candidate show ?thesis by blast
        qed
      next
        case other
        with dist p il nl have "sortedRefs ! p \<noteq> ?a" "sortedRefs ! p \<noteq> ?b"
          by (simp_all add: nth_eq_iff_index_eq)
        from eff(3)[OF this] e have "step_entry stepIndex rs (sortedRefs ! p) = Some r" by simp
        from old[OF p this ne d] show ?thesis .
      qed
    qed
    moreover from eff(1) len have "length rs2 = length refs0" by simp
    moreover from eff(2) br len have "\<forall>k<length refs0. backref S (rs2 ! k) = backref S (refs0 ! k)"
      by simp
    ultimately have "backrefs_ok S stepIndex sortedRefs refs0 rs2"
      unfolding backrefs_ok_def by blast
    with c show ?thesis by simp
  qed
qed

lemma sweep_loop_backrefs:
  "sweep_loop S cmps step stepIndex sortedRefs i n rs = Inr rs2 \<Longrightarrow>
   distinct sortedRefs \<Longrightarrow> \<forall>k\<in>set sortedRefs. k < length refs0 \<Longrightarrow> i < n \<Longrightarrow>
   backrefs_ok S stepIndex sortedRefs refs0 rs \<Longrightarrow>
   backrefs_ok S stepIndex sortedRefs refs0 rs2"
proof (induction S cmps step stepIndex sortedRefs i n rs rule: sweep_loop.induct)
  case (1 S cmps step stepIndex sortedRefs i n rs)
  show ?case
  proof (cases "n < length sortedRefs")
    case False
    with "1.prems" show ?thesis by (simp add: sweep_loop_stop)
  next
    case True
    from "1.prems"(1) True obtain i2 n2 rs1 where
      b: "sweep_body S cmps step stepIndex sortedRefs i n rs = Inr ((i2, n2), rs1)"
      and l: "sweep_loop S cmps step stepIndex sortedRefs i2 n2 rs1 = Inr rs2"
      by (rule sweep_loop_Inr_cases)
    from sweep_body_backrefs[OF "1.prems"(2) "1.prems"(3) "1.prems"(5) "1.prems"(4) b]
    have "backrefs_ok S stepIndex sortedRefs refs0 rs1" and "i2 < n2" by simp_all
    from "1.IH"[OF True b refl refl l "1.prems"(2) "1.prems"(3) this(2) this(1)]
    show ?thesis .
  qed
qed

text \<open>The sorted array of a step is a result of \<open>_.sortBy\<close>: each position of \<open>refs\<close>
  once. Where \<open>dupeRef\<close> is INDEX and each record has its position as index, the
  identities of the records are distinct; the normalization pass gives a record its
  position as index unless the record or the mutators of the strategy have a field
  \<open>index\<close>.\<close>

lemma sortBy_positions:
  "distinct (sortBy refs key) \<and> set (sortBy refs key) = {0..<length refs}"
  by (simp add: sortBy_def)

lemma backref_index_inj:
  assumes "dupeRef S \<noteq> RECNUMBER"
    and "\<forall>k<length refs. index (refs ! k) = RefNum k"
    and "\<forall>k\<in>set sortedRefs. k < length refs"
  shows "inj_on (\<lambda>k. backref S (refs ! k)) (set sortedRefs)"
  using assms by (auto simp: inj_on_def backref_def)

lemma working_record_index:
  assumes "working_record muts strat orig k = Inr w"
    and "orig ''index'' = Absent"
    and "''index'' \<notin> set (map fst (case mutators strat of None \<Rightarrow> [] | Some ms \<Rightarrow> ms))"
  shows "index w = RefNum k"
proof -
  have "map fst vs = map fst ms" if "mapValues muts orig ms = Inr vs" for ms vs
    using that by (induction ms arbitrary: vs) (auto split: sum.splits)
  with assms show ?thesis
    by (auto simp: working_record_def Let_def spread_sets_def split: sum.splits)
qed

lemma run_mutators_index:
  "run_mutators muts strat input k0 = Inr refs \<Longrightarrow> k < length refs \<Longrightarrow>
   (input ! k) ''index'' = Absent \<Longrightarrow>
   ''index'' \<notin> set (map fst (case mutators strat of None \<Rightarrow> [] | Some ms \<Rightarrow> ms)) \<Longrightarrow>
   index (refs ! k) = RefNum (k0 + k)"
proof (induction input arbitrary: k0 refs k)
  case Nil
  then show ?case by simp
next
  case (Cons orig rest)
  from Cons.prems(1) obtain w ws where
    w: "working_record muts strat orig k0 = Inr w"
    and ws: "run_mutators muts strat rest (Suc k0) = Inr ws"
    and refs: "refs = w # ws"
    by (auto split: sum.splits)
  show ?case
  proof (cases k)
    case 0
    with Cons.prems(3) have "orig ''index'' = Absent" by simp
    from working_record_index[OF w this Cons.prems(4)] refs 0 show ?thesis by simp
  next
    case (Suc j)
    with Cons.prems(2,3) refs have "j < length ws" "(rest ! j) ''index'' = Absent" by simp_all
    from Cons.IH[OF ws this Cons.prems(4)] refs Suc show ?thesis by simp
  qed
qed

text \<open>
  C8 as stated: a \<open>dupeOf\<close> written in a step identifies a record at an earlier
  position of the step's sorted order and never the referencing record itself. A run
  with \<open>dupeRef\<close> RECNUMBER on two references that share their DOI and both carry the
  record number 7: the identity of each is 7, the second is marked as a duplicate of
  the first, and its \<open>dupeOf\<close> is 7, its own identity.
\<close>

theorem repeated_record_number_is_its_own_dupeOf:
  "map_sum id (map_prod id
       (map (\<lambda>w. (backref (sample_settings\<lparr>dupeRef := RECNUMBER\<rparr>) w, dedupe_steps w))))
     (aggregated (sample_settings\<lparr>dupeRef := RECNUMBER\<rparr>) [''sample'' \<mapsto> sample_strategy]
        sample_mutators sample_comparisons [ref_a7, ref_b7])
   = Inr (STATS,
       [(RefVal (Str ''7''), Some [Some \<lparr>score = Num 0, dupeOf = None\<rparr>]),
        (RefVal (Str ''7''),
         Some [Some \<lparr>score = Num 1, dupeOf = Some (RefVal (Str ''7''))\<rparr>])])"
  by code_simp

text \<open>
  C8, amended: in the scan of a step over a sorted array, an entry with a \<open>dupeOf\<close>
  that the scan has written for the record at position \<open>p\<close> holds the identity (the
  index or the record number, after \<open>dupeRef\<close>) of a record at an earlier position
  \<open>q < p\<close>; and where no two of the records scanned have the same identity, no record
  at position \<open>p\<close> or later has that identity: the reference is then neither to the
  record itself nor forward.
\<close>

theorem dupeOf_points_to_an_earlier_record:
  assumes "distinct sortedRefs"
    and "\<forall>k\<in>set sortedRefs. k < length refs"
    and "sweep_loop S cmps step stepIndex sortedRefs 0 1 refs = Inr refs2"
    and "p < length sortedRefs"
    and "step_entry stepIndex refs2 (sortedRefs ! p) = Some r"
    and "step_entry stepIndex refs (sortedRefs ! p) \<noteq> Some r"
    and "dupeOf r = Some d"
  shows "(\<exists>q<p. d = backref S (refs ! (sortedRefs ! q)))
         \<and> (inj_on (\<lambda>k. backref S (refs ! k)) (set sortedRefs) \<longrightarrow>
              (\<forall>q<length sortedRefs. backref S (refs ! (sortedRefs ! q)) = d \<longrightarrow> q < p))"
proof -
  have "backrefs_ok S stepIndex sortedRefs refs refs"
    by (simp add: backrefs_ok_def)
  from sweep_loop_backrefs[OF assms(3) assms(1) assms(2) _ this]
  have "backrefs_ok S stepIndex sortedRefs refs refs2" by simp
  with assms(4-7) obtain q0 where q0: "q0 < p" "d = backref S (refs ! (sortedRefs ! q0))"
    unfolding backrefs_ok_def by blast
  have "q < p" if inj: "inj_on (\<lambda>k. backref S (refs ! k)) (set sortedRefs)"
    and q: "q < length sortedRefs" "backref S (refs ! (sortedRefs ! q)) = d" for q
  proof -
    from q0 assms(4) have "q0 < length sortedRefs" by simp
    with inj q q0 have "sortedRefs ! q = sortedRefs ! q0"
      by (auto dest!: inj_onD[where x = "sortedRefs ! q" and y = "sortedRefs ! q0"])
    with assms(1) q(1) \<open>q0 < length sortedRefs\<close> have "q = q0"
      by (simp add: nth_eq_iff_index_eq)
    with q0 show ?thesis by simp
  qed
  with q0 show ?thesis by blast
qed


theorem dupeOf_points_to_an_earlier_record_witness:
  "(\<exists>q<1. RefNum 1 = backref sample_settings
       ([plain_wref ref_c 0, plain_wref ref_b 1, plain_wref ref_a 2] ! ([1, 2, 0] ! q)))
   \<and> backref sample_settings
       ([plain_wref ref_c 0, plain_wref ref_b 1, plain_wref ref_a 2] ! ([1, 2, 0] ! 1)) \<noteq> RefNum 1
   \<and> backref sample_settings
       ([plain_wref ref_c 0, plain_wref ref_b 1, plain_wref ref_a 2] ! ([1, 2, 0] ! 2)) \<noteq> RefNum 1
   \<and> (\<exists>q<1. RefNum 2 = backref (sample_settings\<lparr>dupeRef := RECNUMBER\<rparr>)
       ([plain_wref ref_c 0, plain_wref ref_b 1, plain_wref ref_a 2] ! ([1, 2, 0] ! q)))
   \<and> backref (sample_settings\<lparr>dupeRef := RECNUMBER\<rparr>)
       ([plain_wref ref_c 0, plain_wref ref_b 1, plain_wref ref_a 2] ! ([1, 2, 0] ! 1)) \<noteq> RefNum 2
   \<and> backref (sample_settings\<lparr>dupeRef := RECNUMBER\<rparr>)
       ([plain_wref ref_c 0, plain_wref ref_b 1, plain_wref ref_a 2] ! ([1, 2, 0] ! 2)) \<noteq> RefNum 2"
proof -
  let ?refs = "[plain_wref ref_c 0, plain_wref ref_b 1, plain_wref ref_a 2]"
  let ?R = "sample_settings\<lparr>dupeRef := RECNUMBER\<rparr>"
  let ?r = "\<lambda>d. \<lparr>score = Num 1, dupeOf = Some (RefNum d)\<rparr>"
  have s: "sortBy ?refs (sort' doi_step) = [1, 2, 0]"
    by code_simp
  have d: "distinct [1, 2, 0::nat]" by simp
  have r: "\<forall>k\<in>set [1, 2, 0]. k < length ?refs" by simp
  have p: "1 < length [1, 2, 0::nat]" by simp
  have e0: "step_entry 0 ?refs ([1, 2, 0] ! 1) \<noteq> Some (?r d)" for d
    by (simp add: step_entry_def get_step_def plain_wref_def)
  have "map_sum id (map dedupe_steps)
          (sweep_loop sample_settings sample_comparisons doi_step 0 [1, 2, 0] 0 1 ?refs)
        = Inr [Some [], Some [Some \<lparr>score = Num 0, dupeOf = None\<rparr>], Some [Some (?r 1)]]"
    by code_simp
  then obtain refsI where
    lI: "sweep_loop sample_settings sample_comparisons doi_step 0 [1, 2, 0] 0 1 ?refs = Inr refsI"
    and mI: "map dedupe_steps refsI
             = [Some [], Some [Some \<lparr>score = Num 0, dupeOf = None\<rparr>], Some [Some (?r 1)]]"
    by (cases "sweep_loop sample_settings sample_comparisons doi_step 0 [1, 2, 0] 0 1 ?refs") auto
  from mI obtain x y z where "refsI = [x, y, z]" and "dedupe_steps z = Some [Some (?r 1)]"
    by (auto simp: map_eq_Cons_conv)
  then have eI: "step_entry 0 refsI ([1, 2, 0] ! 1) = Some (?r 1)"
    by (simp add: step_entry_def get_step_def)
  have injI: "inj_on (\<lambda>k. backref sample_settings (?refs ! k)) (set [1, 2, 0])"
    by (rule backref_index_inj)
       (auto simp: sample_settings_def default_settings_def RECNUMBER_def plain_wref_def
                   less_Suc_eq numeral_3_eq_3)
  from dupeOf_points_to_an_earlier_record[OF d r lI p eI e0] injI
  have aI: "\<exists>q<1. RefNum 1 = backref sample_settings (?refs ! ([1, 2, 0] ! q))"
    and bI: "\<forall>q<length [1, 2, 0::nat].
              backref sample_settings (?refs ! ([1, 2, 0] ! q)) = RefNum 1 \<longrightarrow> q < 1"
    by simp_all
  from bI have cI: "backref sample_settings (?refs ! ([1, 2, 0] ! 1)) \<noteq> RefNum 1"
    "backref sample_settings (?refs ! ([1, 2, 0] ! 2)) \<noteq> RefNum 1"
    by (auto simp: less_Suc_eq numeral_2_eq_2)

  have "map_sum id (map dedupe_steps)
          (sweep_loop ?R sample_comparisons doi_step 0 [1, 2, 0] 0 1 ?refs)
        = Inr [Some [], Some [Some \<lparr>score = Num 0, dupeOf = None\<rparr>], Some [Some (?r 2)]]"
    by code_simp
  then obtain refsR where
    lR: "sweep_loop ?R sample_comparisons doi_step 0 [1, 2, 0] 0 1 ?refs = Inr refsR"
    and mR: "map dedupe_steps refsR
             = [Some [], Some [Some \<lparr>score = Num 0, dupeOf = None\<rparr>], Some [Some (?r 2)]]"
    by (cases "sweep_loop ?R sample_comparisons doi_step 0 [1, 2, 0] 0 1 ?refs") auto
  from mR obtain x y z where "refsR = [x, y, z]" and "dedupe_steps z = Some [Some (?r 2)]"
    by (auto simp: map_eq_Cons_conv)
  then have eR: "step_entry 0 refsR ([1, 2, 0] ! 1) = Some (?r 2)"
    by (simp add: step_entry_def get_step_def)
  have injR: "inj_on (\<lambda>k. backref ?R (?refs ! k)) (set [1, 2, 0])"
    by (simp add: inj_on_def backref_def plain_wref_def)
  from dupeOf_points_to_an_earlier_record[OF d r lR p eR e0] injR
  have aR: "\<exists>q<1. RefNum 2 = backref ?R (?refs ! ([1, 2, 0] ! q))"
    and bR: "\<forall>q<length [1, 2, 0::nat].
              backref ?R (?refs ! ([1, 2, 0] ! q)) = RefNum 2 \<longrightarrow> q < 1"
    by simp_all
  from bR have cR: "backref ?R (?refs ! ([1, 2, 0] ! 1)) \<noteq> RefNum 2"
    "backref ?R (?refs ! ([1, 2, 0] ! 2)) \<noteq> RefNum 2"
    by (auto simp: less_Suc_eq numeral_2_eq_2)
  from aI cI aR cR show ?thesis by blast
qed

section \<open>The output of a run\<close>

text \<open>A reference with a field \<open>dedupe\<close> of its own: the field replaces the
  \<open>dedupe\<close> object of the working record, and the run raises a \<open>TypeError\<close>.\<close>

lemma run_on_a_record_with_a_dedupe_field:
  "map_sum id (\<lambda>out. ())
     (run sample_settings [''sample'' \<mapsto> sample_strategy] sample_mutators sample_comparisons
        [ref_a(''dedupe'' := Str ''DUPE'')]) = Inl TypeError"
  by code_simp

lemma run_Inr_cases:
  assumes "run S strategies muts cmps input = Inr out"
  obtains act refs where
    "aggregated S strategies muts cmps input = Inr (act, refs)"
    "dispatch S act input refs = Inr out"
  using assms unfolding run_def by (auto split: sum.splits)

lemma filter_by_position:
  "map fst (filter (\<lambda>(x, j). P j) (zip xs [0..<length xs])) = nths xs {j. P j}"
  unfolding nths_def
  by (rule arg_cong[where f="map fst"], rule filter_cong) auto

text \<open>
  C6: a run that returns under STATS or MARK returns as many records as the input has,
  the record at each position being the input record of that position with the action
  field set; under DELETE it returns a subsequence of the input. The sorting inside
  the steps has no part in it.
\<close>

theorem run_output_order:
  assumes "run S strategies muts cmps input = Inr out"
  shows "(ACTIONS (action S) = Some STATS \<or> ACTIONS (action S) = Some MARK \<longrightarrow>
            (\<exists>recs. out = Decorated recs \<and> length recs = length input \<and>
               (\<forall>k<length input. \<forall>f. f \<noteq> actionField S \<longrightarrow>
                  (recs ! k) f = Field ((input ! k) f))))
       \<and> (ACTIONS (action S) = Some DELETE \<longrightarrow> (\<exists>kept. out = Kept kept \<and> subseq kept input))"
proof -
  from assms obtain act refs where
    agg: "aggregated S strategies muts cmps input = Inr (act, refs)"
    and d: "dispatch S act input refs = Inr out"
    by (rule run_Inr_cases)
  from aggregated_length[OF agg] have len: "length refs = length input"
    and act: "ACTIONS (action S) = Some act" by simp_all
  show ?thesis
  proof (cases act)
    case STATS
    with d len have "out = Decorated (map (\<lambda>(ref, refIndex).
                 decorate ref (actionField S)
                   (Stats (final_score (refs ! refIndex)) (dupeOf_list (refs ! refIndex))))
               (zip input [0..<length input]))"
      by (simp add: dispatch_def)
    with act STATS show ?thesis by (simp add: decorate_def)
  next
    case MARK
    with d len have "out = Decorated (map (\<lambda>(ref, refIndex).
                 decorate ref (actionField S)
                   (Field (if js_ge (final_score (refs ! refIndex)) (Num (threshold S))
                           then apply_mark (markDupe S) ref
                           else apply_mark (markOk S) ref)))
               (zip input [0..<length input]))"
      by (simp add: dispatch_def)
    with act MARK show ?thesis by (simp add: decorate_def)
  next
    case DELETE
    with d len have o: "out = Kept (map fst (filter (\<lambda>(ref, refIndex).
                 js_lt (final_score (refs ! refIndex)) (Num (threshold S)))
               (zip input [0..<length input])))"
      by (simp add: dispatch_def)
    have "subseq (map fst (filter (\<lambda>(ref, refIndex).
                 js_lt (final_score (refs ! refIndex)) (Num (threshold S)))
               (zip input [0..<length input]))) (map fst (zip input [0..<length input]))"
      by (intro subseq_map subseq_filter_left)
    then have "subseq (map fst (filter (\<lambda>(ref, refIndex).
                 js_lt (final_score (refs ! refIndex)) (Num (threshold S)))
               (zip input [0..<length input]))) input"
      by simp
    with o act DELETE show ?thesis by simp
  qed
qed

lemma sample_cases:
  "ACTIONS (action sample_settings) = Some STATS"
  "ACTIONS (action (sample_settings\<lparr>action := 1\<rparr>)) = Some MARK"
  "ACTIONS (action (sample_settings\<lparr>action := 2\<rparr>)) = Some DELETE"
  "actionField sample_settings = ''dedupe''"
  by (simp_all add: sample_settings_def default_settings_def ACTIONS_def)

theorem run_output_order_witness:
  "(\<exists>recs. run sample_settings [''sample'' \<mapsto> sample_strategy] sample_mutators
              sample_comparisons [ref_a, ref_b, ref_c] = Inr (Decorated recs)
           \<and> length recs = 3 \<and> (recs ! 1) ''title'' = Field (Str ''Beta''))
   \<and> (\<exists>kept. run (sample_settings\<lparr>action := 2\<rparr>) [''sample'' \<mapsto> sample_strategy]
                sample_mutators sample_comparisons [ref_a, ref_b, ref_c] = Inr (Kept kept)
             \<and> subseq kept [ref_a, ref_b, ref_c])"
proof -
  have "\<not> isl (run sample_settings [''sample'' \<mapsto> sample_strategy] sample_mutators
                 sample_comparisons [ref_a, ref_b, ref_c])"
    by code_simp
  then obtain out1 where o1: "run sample_settings [''sample'' \<mapsto> sample_strategy]
      sample_mutators sample_comparisons [ref_a, ref_b, ref_c] = Inr out1"
    by (cases "run sample_settings [''sample'' \<mapsto> sample_strategy] sample_mutators
                 sample_comparisons [ref_a, ref_b, ref_c]") auto
  have "\<not> isl (run (sample_settings\<lparr>action := 2\<rparr>) [''sample'' \<mapsto> sample_strategy]
                 sample_mutators sample_comparisons [ref_a, ref_b, ref_c])"
    by code_simp
  then obtain out2 where o2: "run (sample_settings\<lparr>action := 2\<rparr>)
      [''sample'' \<mapsto> sample_strategy] sample_mutators sample_comparisons
      [ref_a, ref_b, ref_c] = Inr out2"
    by (cases "run (sample_settings\<lparr>action := 2\<rparr>) [''sample'' \<mapsto> sample_strategy]
                 sample_mutators sample_comparisons [ref_a, ref_b, ref_c]") auto
  from run_output_order[OF o1] obtain recs where
    "out1 = Decorated recs" "length recs = 3"
    "\<forall>k<3. \<forall>f. f \<noteq> ''dedupe'' \<longrightarrow> (recs ! k) f = Field (([ref_a, ref_b, ref_c] ! k) f)"
    by (auto simp: sample_cases)
  then have a: "out1 = Decorated recs \<and> length recs = 3 \<and> (recs ! 1) ''title'' = Field (Str ''Beta'')"
    by (simp add: ref_b_def)
  from run_output_order[OF o2] obtain kept where
    b: "out2 = Kept kept" "subseq kept [ref_a, ref_b, ref_c]"
    by (auto simp: ACTIONS_def)
  from a b o1 o2 show ?thesis by auto
qed

text \<open>
  C7: a record whose \<open>dedupe.score\<close> is equal to the threshold is a duplicate: under
  MARK its action field is the \<open>markDupe\<close> value, and under DELETE its position is not
  among the positions that are kept.
\<close>

theorem threshold_is_inclusive:
  assumes "aggregated S strategies muts cmps input = Inr (act, refs)"
    and "k < length input"
    and "final_score (refs ! k) = Num (threshold S)"
  shows "(act = MARK \<longrightarrow>
            (\<exists>recs. run S strategies muts cmps input = Inr (Decorated recs)
               \<and> length recs = length input
               \<and> (recs ! k) (actionField S) = Field (apply_mark (markDupe S) (input ! k))))
       \<and> (act = DELETE \<longrightarrow>
            run S strategies muts cmps input
              = Inr (Kept (nths input {j. js_lt (final_score (refs ! j)) (Num (threshold S))}))
            \<and> k \<notin> {j. js_lt (final_score (refs ! j)) (Num (threshold S))})"
proof -
  from aggregated_length[OF assms(1)] have len: "length refs = length input" by simp
  have r: "run S strategies muts cmps input = dispatch S act input refs"
    by (simp add: run_def assms(1))
  have ge: "js_ge (final_score (refs ! k)) (Num (threshold S))"
    and nlt: "\<not> js_lt (final_score (refs ! k)) (Num (threshold S))"
    by (simp_all add: assms(3) js_ge_def js_lt_def)
  have mark: ?thesis if "act = MARK"
    using that r len assms(2) ge by (simp add: dispatch_def decorate_def)
  have del: ?thesis if "act = DELETE"
    using that r len nlt by (simp add: dispatch_def filter_by_position)
  from mark del show ?thesis by (cases act) simp_all
qed

theorem threshold_is_inclusive_witness:
  "(\<exists>recs. run (sample_settings\<lparr>action := 1, threshold := 1 / 2\<rparr>)
              [''sample'' \<mapsto> sample_strategy] sample_mutators sample_comparisons
              [ref_a, ref_b, ref_c] = Inr (Decorated recs)
           \<and> length recs = 3 \<and> (recs ! 1) ''dedupe'' = Field (Str ''DUPE''))
   \<and> (\<exists>K. run (sample_settings\<lparr>action := 2, threshold := 1 / 2\<rparr>)
              [''sample'' \<mapsto> sample_strategy] sample_mutators sample_comparisons
              [ref_a, ref_b, ref_c] = Inr (Kept (nths [ref_a, ref_b, ref_c] K))
           \<and> 1 \<notin> K)"
proof -
  let ?M = "sample_settings\<lparr>action := 1, threshold := 1 / 2\<rparr>"
  let ?D = "sample_settings\<lparr>action := 2, threshold := 1 / 2\<rparr>"
  let ?agg = "\<lambda>S. aggregated S [''sample'' \<mapsto> sample_strategy] sample_mutators
                      sample_comparisons [ref_a, ref_b, ref_c]"
  have "map_sum id (map_prod id (map final_score)) (?agg ?M)
        = Inr (MARK, [Num 0, Num (1 / 2), Num (1 / 2)])"
    by code_simp
  then obtain refsM where m: "?agg ?M = Inr (MARK, refsM)"
    and sm: "map final_score refsM = [Num 0, Num (1 / 2), Num (1 / 2)]"
    by (cases "?agg ?M") auto
  have "map_sum id (map_prod id (map final_score)) (?agg ?D)
        = Inr (DELETE, [Num 0, Num (1 / 2), Num (1 / 2)])"
    by code_simp
  then obtain refsD where d: "?agg ?D = Inr (DELETE, refsD)"
    and sd: "map final_score refsD = [Num 0, Num (1 / 2), Num (1 / 2)]"
    by (cases "?agg ?D") auto
  from sm have "map final_score refsM ! 1 = Num (1 / 2)" by simp
  moreover from sm have "length refsM = 3" by (metis length_map length_Cons list.size(3) numeral_3_eq_3)
  ultimately have km: "final_score (refsM ! 1) = Num (threshold ?M)" by simp
  from sd have "map final_score refsD ! 1 = Num (1 / 2)" by simp
  moreover from sd have "length refsD = 3" by (metis length_map length_Cons list.size(3) numeral_3_eq_3)
  ultimately have kd: "final_score (refsD ! 1) = Num (threshold ?D)" by simp
  have k: "1 < length [ref_a, ref_b, ref_c]" by simp
  from threshold_is_inclusive[OF m k km]
  have a: "\<exists>recs. run ?M [''sample'' \<mapsto> sample_strategy] sample_mutators sample_comparisons
              [ref_a, ref_b, ref_c] = Inr (Decorated recs)
           \<and> length recs = 3 \<and> (recs ! 1) ''dedupe'' = Field (Str ''DUPE'')"
    by (simp add: sample_settings_def default_settings_def apply_mark_def numeral_3_eq_3)
  from threshold_is_inclusive[OF d k kd]
  have b: "\<exists>K. run ?D [''sample'' \<mapsto> sample_strategy] sample_mutators sample_comparisons
              [ref_a, ref_b, ref_c] = Inr (Kept (nths [ref_a, ref_b, ref_c] K)) \<and> 1 \<notin> K"
    by blast
  from a b show ?thesis by blast
qed

lemma sweep_steps_empty:
  "sweep_steps S cmps sortedBy [] stepIndex sts [] = Inr []"
proof (induction sts arbitrary: sortedBy stepIndex)
  case Nil
  show ?case by simp
next
  case (Cons step rest)
  have "sweep_loop S cmps step stepIndex [] 0 1 [] = Inr []"
    by (simp add: sweep_loop_stop)
  with Cons show ?case by (simp add: Let_def sortBy_def)
qed

text \<open>
  C10: on the empty input a run with a valid action, a valid \<open>dupeRef\<close>, a strategy of
  the catalogue that has its steps and, where validation is on, passes it, returns the
  empty sequence under each action. This holds for every registry of comparisons, the
  empty one included, in which any comparison made would raise: none is made.
\<close>

theorem run_on_empty_input:
  assumes "ACTIONS (action S) = Some act"
    and "dupeRef S = INDEX \<or> dupeRef S = RECNUMBER"
    and "strategies (strategy S) = Some strat"
    and "steps strat = Some sts"
    and "validateStrategy' S \<longrightarrow> validateStrategy strat = Inr Valid"
  shows "run S strategies muts cmps [] = Inr (case act of DELETE \<Rightarrow> Kept [] | _ \<Rightarrow> Decorated [])"
proof -
  have "aggregated S strategies muts cmps [] = Inr (act, [])"
    using assms by (auto simp: aggregated_def sweep_steps_empty)
  then show ?thesis
    by (cases act) (simp_all add: run_def dispatch_def)
qed


theorem run_on_empty_input_witness:
  "run (default_settings\<lparr>strategy := ''bramer''\<rparr>) [''bramer'' \<mapsto> bramer]
       Map.empty Map.empty [] = Inr (Decorated [])
   \<and> run (default_settings\<lparr>strategy := ''bramer'', action := 1\<rparr>) [''bramer'' \<mapsto> bramer]
       Map.empty Map.empty [] = Inr (Decorated [])
   \<and> run (default_settings\<lparr>strategy := ''bramer'', action := 2\<rparr>) [''bramer'' \<mapsto> bramer]
       Map.empty Map.empty [] = Inr (Kept [])"
proof -
  have v: "validateStrategy bramer = Inr Valid" by code_simp
  have s: "steps bramer \<noteq> None" by (simp add: bramer_def)
  then obtain sts where sts: "steps bramer = Some sts" by blast
  have 1: "run (default_settings\<lparr>strategy := ''bramer''\<rparr>) [''bramer'' \<mapsto> bramer]
       Map.empty Map.empty [] = Inr (Decorated [])"
    using run_on_empty_input[of "default_settings\<lparr>strategy := ''bramer''\<rparr>" STATS
            "[''bramer'' \<mapsto> bramer]" bramer sts Map.empty Map.empty] v sts
    by (simp add: default_settings_def ACTIONS_def INDEX_def)
  have 2: "run (default_settings\<lparr>strategy := ''bramer'', action := 1\<rparr>) [''bramer'' \<mapsto> bramer]
       Map.empty Map.empty [] = Inr (Decorated [])"
    using run_on_empty_input[of "default_settings\<lparr>strategy := ''bramer'', action := 1\<rparr>" MARK
            "[''bramer'' \<mapsto> bramer]" bramer sts Map.empty Map.empty] v sts
    by (simp add: default_settings_def ACTIONS_def INDEX_def)
  have 3: "run (default_settings\<lparr>strategy := ''bramer'', action := 2\<rparr>) [''bramer'' \<mapsto> bramer]
       Map.empty Map.empty [] = Inr (Kept [])"
    using run_on_empty_input[of "default_settings\<lparr>strategy := ''bramer'', action := 2\<rparr>" DELETE
            "[''bramer'' \<mapsto> bramer]" bramer sts Map.empty Map.empty] v sts
    by (simp add: default_settings_def ACTIONS_def INDEX_def)
  from 1 2 3 show ?thesis by blast
qed

section \<open>Mutator examples\<close>

text \<open>
  C9: the mutators map \<open>one$two_three()\<close> to \<open>one two three \<close> (alphaNumericOnly),
  the five Latin-1 letters O-tilde, N-tilde, I-circumflex, O-circumflex, N-tilde to
  \<open>ONION\<close> (deburr), \<open>one1two2three3\<close> to \<open>123\<close> (numericOnly), \<open>244-58\<close> to
  \<open>244-258\<close> and the empty string to itself (consistentPageNumbering), the bare DOI
  \<open>10.1000/182\<close> to \<open>https://doi.org/10.1000/182\<close>, and an empty DOI field of a
  record whose \<open>urls\<close> are \<open>[http://doi.org/10.1000/182]\<close> to the same URL
  (doiRewrite).
\<close>

theorem mutator_examples:
  "alphaNumericOnly (Str ''one$two_three()'') ref = Inr (Str ''one two three '')
   \<and> deburr (Str [CHR 0xD5, CHR 0xD1, CHR 0xCE, CHR 0xD4, CHR 0xD1]) ref = Inr (Str ''ONION'')
   \<and> numericOnly (Str ''one1two2three3'') ref = Inr (Str ''123'')
   \<and> consistentPageNumbering (Str ''244-58'') ref = Inr (Str ''244-258'')
   \<and> consistentPageNumbering (Str []) ref = Inr (Str [])
   \<and> doiRewrite (Str ''10.1000/182'') ref = Inr (Str ''https://doi.org/10.1000/182'')
   \<and> doiRewrite (Str []) ((\<lambda>f. Absent)(''urls'' := Arr [''http://doi.org/10.1000/182'']))
       = Inr (Str ''https://doi.org/10.1000/182'')"
proof -
  have a: "alphaNumericOnly (Str ''one$two_three()'') ref = Inr (Str ''one two three '')"
    by (simp add: alphaNumericOnly_def is_digit_def is_alpha_def is_space_def)
  have b: "deburr (Str [CHR 0xD5, CHR 0xD1, CHR 0xCE, CHR 0xD4, CHR 0xD1]) ref
           = Inr (Str ''ONION'')"
    by (simp add: deburr_def deburrLetter_def deburredLetters_def)
  have c: "numericOnly (Str ''one1two2three3'') ref = Inr (Str ''123'')"
    by (simp add: numericOnly_def is_digit_def)
  have d: "consistentPageNumbering (Str ''244-58'') ref = Inr (Str ''244-258'')"
    by (simp add: consistentPageNumbering_def pages_groups_def is_digit_def is_space_def
                  is_dash_def)
  have e: "consistentPageNumbering (Str []) ref = Inr (Str [])"
    by (simp add: consistentPageNumbering_def pages_groups_def)
  have f: "doiRewrite (Str ''10.1000/182'') ref = Inr (Str ''https://doi.org/10.1000/182'')"
    by (simp add: doiRewrite_def falsy_def starts_with_def)
  have g: "doiRewrite (Str []) ((\<lambda>f. Absent)(''urls'' := Arr [''http://doi.org/10.1000/182'']))
           = Inr (Str ''https://doi.org/10.1000/182'')"
    by (simp add: doiRewrite_def falsy_def is_doi_url_def starts_with_def http_to_https_def)
  from a b c d e f g show ?thesis by blast
qed

end
